theory Spec2Isabelle
  imports Complex_Main "HOL-Library.Multiset" "HOL-Library.Sublist"
begin

section \<open>Data model of the workspace store\<close>

text \<open>
  The store of \<^verbatim>\<open>src/stores/workspace-store.ts\<close>. A JavaScript \<^verbatim>\<open>number\<close> is
  modelled as a real (an array index as an integer), so the model has neither NaN nor
  the infinities; a nullable number is an \<open>option\<close>.
\<close>

datatype ShapeType = ellipse | crescent | box

record Point =
  pos_x :: real
  pos_y :: real

record ShapeData =
  shape_id :: real
  shape_type :: ShapeType
  width :: real
  height :: real
  baseColor :: string
  opacity :: real
  position :: Point

record NormalizedShapes =
  ids :: "real list"
  entities :: "real \<rightharpoonup> ShapeData"

record WorkspaceState =
  shapeState :: NormalizedShapes
  selectedShapeId :: "real option"
  currentShapeType :: ShapeType
  formWidth :: "real option"
  formHeight :: "real option"
  formBaseColor :: string
  formOpacity :: real
  zoom :: real
  canvasOffset :: Point
  isControlsPanelOpen :: bool
  isShapeListOpen :: bool

text \<open>\<^verbatim>\<open>Partial<PersistedWorkspace>\<close>: every property may be missing.\<close>

record PartialPersisted =
  p_version :: "real option"
  p_shapes :: "ShapeData list option"
  p_zoom :: "real option"
  p_canvasOffset :: "Point option"
  p_isControlsPanelOpen :: "bool option"
  p_isShapeListOpen :: "bool option"

text \<open>
  The module \<^verbatim>\<open>src/constants/pixel-shape\<close> is not among the sources. The two
  constants the store imports from it are a parameter of every function that reads them.
\<close>

record Constants =
  MIN_ZOOM :: real
  MAX_ZOOM :: real

section \<open>Helpers\<close>

text \<open>\<^verbatim>\<open>normalizeShapes\<close>: one pass, a later shape overwrites an earlier one with its id.\<close>

definition normalizeShapes :: "ShapeData list \<Rightarrow> NormalizedShapes" where
  "normalizeShapes shapes =
     foldl (\<lambda>acc shape. \<lparr>ids = ids acc @ [shape_id shape],
                          entities = (entities acc)(shape_id shape \<mapsto> shape)\<rparr>)
           \<lparr>ids = [], entities = Map.empty\<rparr> shapes"

text \<open>\<^verbatim>\<open>denormalizeShapes\<close>: \<open>None\<close> stands for \<^verbatim>\<open>undefined\<close> (an id without entity).\<close>

definition denormalizeShapes :: "NormalizedShapes \<Rightarrow> ShapeData option list" where
  "denormalizeShapes state = map (\<lambda>i. entities state i) (ids state)"

definition clamp :: "real \<Rightarrow> real \<Rightarrow> real \<Rightarrow> real" where
  "clamp v lo hi = max lo (min hi v)"

text \<open>\<^verbatim>\<open>Math.round\<close> rounds half-way cases towards plus infinity.\<close>

definition math_round :: "real \<Rightarrow> real" where
  "math_round v = of_int \<lfloor>v + 1 / 2\<rfloor>"

text \<open>\<^verbatim>\<open>Array.prototype.indexOf\<close>: the first index, or \<open>-1\<close>.\<close>

fun indexOf :: "'a list \<Rightarrow> 'a \<Rightarrow> int" where
  "indexOf [] v = - 1"
| "indexOf (a # as) v =
     (if a = v then 0 else (let i = indexOf as v in if i = - 1 then - 1 else i + 1))"

text \<open>
  \<^verbatim>\<open>Array.prototype.splice(start, deleteCount, ...items)\<close>: a negative start counts from
  the end, a start beyond the end is the end. The result is the array afterwards and the
  removed elements.
\<close>

definition splice :: "'a list \<Rightarrow> int \<Rightarrow> nat \<Rightarrow> 'a list \<Rightarrow> 'a list \<times> 'a list" where
  "splice xs start deleteCount items =
     (let len = int (length xs);
          k = nat (if start < 0 then max (len + start) 0 else min start len);
          dc = min deleteCount (length xs - k)
      in (take k xs @ items @ drop (k + dc) xs, take dc (drop k xs)))"

section \<open>The store\<close>

definition DEFAULT_STATE :: WorkspaceState where
  "DEFAULT_STATE =
     \<lparr>shapeState = \<lparr>ids = [], entities = Map.empty\<rparr>,
      selectedShapeId = None,
      currentShapeType = ellipse,
      formWidth = Some 10,
      formHeight = Some 10,
      formBaseColor = ''#007BFF'',
      formOpacity = 1,
      zoom = 10,
      canvasOffset = \<lparr>pos_x = 0, pos_y = 0\<rparr>,
      isControlsPanelOpen = False,
      isShapeListOpen = False\<rparr>"

text \<open>The dimension check shared by \<^verbatim>\<open>addShape\<close> and \<^verbatim>\<open>updateSelectedShape\<close>.\<close>

definition invalid_dimensions :: "real option \<Rightarrow> real option \<Rightarrow> bool" where
  "invalid_dimensions fw fh =
     (fw = None \<or> the fw \<le> 0 \<or> fh = None \<or> the fh \<le> 0)"

text \<open>The six fields every form reset writes.\<close>

definition reset_form :: "WorkspaceState \<Rightarrow> WorkspaceState" where
  "reset_form state =
     state\<lparr>selectedShapeId := None,
           currentShapeType := ellipse,
           formWidth := Some 10,
           formHeight := Some 10,
           formBaseColor := ''#007BFF'',
           formOpacity := 1\<rparr>"

subsection \<open>Shape actions\<close>

text \<open>\<^verbatim>\<open>addShape\<close>; \<open>now\<close> is the value \<^verbatim>\<open>Date.now()\<close> returns during the call.\<close>

definition addShape :: "real \<Rightarrow> Point \<Rightarrow> WorkspaceState \<Rightarrow> bool \<times> WorkspaceState" where
  "addShape now pos state =
     (if invalid_dimensions (formWidth state) (formHeight state) then (False, state)
      else
        let newShapeId = now;
            newShape = \<lparr>shape_id = newShapeId,
                        shape_type = currentShapeType state,
                        width = the (formWidth state),
                        height = the (formHeight state),
                        baseColor = formBaseColor state,
                        opacity = formOpacity state,
                        position = \<lparr>pos_x = math_round (pos_x pos),
                                     pos_y = math_round (pos_y pos)\<rparr>\<rparr>
        in (True,
            reset_form
              (state\<lparr>shapeState :=
                 \<lparr>ids = ids (shapeState state) @ [newShapeId],
                  entities = (entities (shapeState state))(newShapeId \<mapsto> newShape)\<rparr>\<rparr>)))"

text \<open>
  \<^verbatim>\<open>updateSelectedShape\<close>. \<^verbatim>\<open>!selectedShapeId\<close> holds for \<^verbatim>\<open>null\<close> and for the id 0.
  The updater given to \<^verbatim>\<open>set\<close> returns the state as it is when the id has no entity,
  and the action returns \<^verbatim>\<open>true\<close> after \<^verbatim>\<open>set\<close> in either case.
\<close>

definition updateSelectedShape :: "WorkspaceState \<Rightarrow> bool \<times> WorkspaceState" where
  "updateSelectedShape state =
     (case selectedShapeId state of
        None \<Rightarrow> (False, state)
      | Some sel \<Rightarrow>
          if sel = 0 then (False, state)
          else if invalid_dimensions (formWidth state) (formHeight state) then (False, state)
          else
            (True,
             case entities (shapeState state) sel of
               None \<Rightarrow> state
             | Some existingShape \<Rightarrow>
                 reset_form
                   (state\<lparr>shapeState :=
                      (shapeState state)\<lparr>entities :=
                        (entities (shapeState state))
                          (sel \<mapsto> existingShape\<lparr>width := the (formWidth state),
                                                  height := the (formHeight state),
                                                  baseColor := formBaseColor state,
                                                  opacity := formOpacity state\<rparr>)\<rparr>\<rparr>)))"

definition removeShape :: "real \<Rightarrow> WorkspaceState \<Rightarrow> WorkspaceState" where
  "removeShape i state =
     (let remainingEntities = (entities (shapeState state))(i := None);
          newIds = filter (\<lambda>shapeId. shapeId \<noteq> i) (ids (shapeState state));
          newSelectedId =
            (if selectedShapeId state = Some i
             then (case newIds of [] \<Rightarrow> None | first # _ \<Rightarrow> Some first)
             else selectedShapeId state)
      in state\<lparr>shapeState := \<lparr>ids = newIds, entities = remainingEntities\<rparr>,
               selectedShapeId := newSelectedId\<rparr>)"

definition moveShape :: "real \<Rightarrow> Point \<Rightarrow> WorkspaceState \<Rightarrow> WorkspaceState" where
  "moveShape i pos state =
     (case entities (shapeState state) i of
        None \<Rightarrow> state
      | Some existingShape \<Rightarrow>
          state\<lparr>shapeState :=
            (shapeState state)\<lparr>entities :=
              (entities (shapeState state))(i \<mapsto> existingShape\<lparr>position := pos\<rparr>)\<rparr>\<rparr>)"

text \<open>The order \<^verbatim>\<open>moveShapeLayer\<close> computes from the old one.\<close>

definition layer_order :: "'a list \<Rightarrow> 'a \<Rightarrow> string \<Rightarrow> 'a list" where
  "layer_order old shapeId direction =
     (let currentIndex = indexOf old shapeId;
          newIds = fst (splice old currentIndex 1 [])
      in if direction = ''toFront'' then newIds @ [shapeId]
         else if direction = ''toBack'' then shapeId # newIds
         else if direction = ''forward''
           then fst (splice newIds (min (int (length old) - 1) (currentIndex + 1)) 0 [shapeId])
         else if direction = ''backward''
           then fst (splice newIds (max 0 (currentIndex - 1)) 0 [shapeId])
         else fst (splice newIds currentIndex 0 [shapeId]))"

definition moveShapeLayer :: "real \<Rightarrow> string \<Rightarrow> WorkspaceState \<Rightarrow> WorkspaceState" where
  "moveShapeLayer shapeId direction state =
     (if indexOf (ids (shapeState state)) shapeId = - 1 then state
      else state\<lparr>shapeState :=
             (shapeState state)\<lparr>ids := layer_order (ids (shapeState state)) shapeId direction\<rparr>\<rparr>)"

text \<open>
  The order \<^verbatim>\<open>reorderShapes\<close> computes. When the first \<^verbatim>\<open>splice\<close> removes nothing,
  \<^verbatim>\<open>movedId\<close> is \<^verbatim>\<open>undefined\<close> and the source inserts it into the array: the result
  is no \<^verbatim>\<open>number[]\<close> any more, which the model returns as \<open>None\<close>.
\<close>

definition reorder_order :: "'a list \<Rightarrow> int \<Rightarrow> int \<Rightarrow> 'a list option" where
  "reorder_order old fromIndex toIndex =
     (let (newIds, removed) = splice old fromIndex 1 []
      in case removed of
           [] \<Rightarrow> None
         | movedId # _ \<Rightarrow> Some (fst (splice newIds toIndex 0 [movedId])))"

definition reorderShapes :: "int \<Rightarrow> int \<Rightarrow> WorkspaceState \<Rightarrow> WorkspaceState option" where
  "reorderShapes fromIndex toIndex state =
     (case reorder_order (ids (shapeState state)) fromIndex toIndex of
        None \<Rightarrow> None
      | Some newIds \<Rightarrow> Some (state\<lparr>shapeState := (shapeState state)\<lparr>ids := newIds\<rparr>\<rparr>))"

subsection \<open>Selection\<close>

text \<open>\<^verbatim>\<open>id ? entities[id] : null\<close>: the ids \<^verbatim>\<open>null\<close> and 0 are falsy.\<close>

definition setSelectedShapeId :: "real option \<Rightarrow> WorkspaceState \<Rightarrow> WorkspaceState" where
  "setSelectedShapeId i state =
     (let shape = (case i of None \<Rightarrow> None
                   | Some n \<Rightarrow> if n = 0 then None else entities (shapeState state) n)
      in case shape of
           Some s \<Rightarrow>
             state\<lparr>selectedShapeId := i,
                   formWidth := Some (width s),
                   formHeight := Some (height s),
                   formBaseColor := baseColor s,
                   formOpacity := opacity s,
                   currentShapeType := shape_type s\<rparr>
         | None \<Rightarrow> state\<lparr>selectedShapeId := None\<rparr>)"

definition resetFormToDefaults :: "WorkspaceState \<Rightarrow> WorkspaceState" where
  "resetFormToDefaults state = reset_form state"

subsection \<open>Form actions\<close>

definition setCurrentShapeType :: "ShapeType \<Rightarrow> WorkspaceState \<Rightarrow> WorkspaceState" where
  "setCurrentShapeType t state = state\<lparr>currentShapeType := t\<rparr>"

definition setFormWidth :: "real option \<Rightarrow> WorkspaceState \<Rightarrow> WorkspaceState" where
  "setFormWidth w state = state\<lparr>formWidth := w\<rparr>"

definition setFormHeight :: "real option \<Rightarrow> WorkspaceState \<Rightarrow> WorkspaceState" where
  "setFormHeight h state = state\<lparr>formHeight := h\<rparr>"

definition setFormBaseColor :: "string \<Rightarrow> WorkspaceState \<Rightarrow> WorkspaceState" where
  "setFormBaseColor color state = state\<lparr>formBaseColor := color\<rparr>"

definition setFormOpacity :: "real \<Rightarrow> WorkspaceState \<Rightarrow> WorkspaceState" where
  "setFormOpacity v state = state\<lparr>formOpacity := v\<rparr>"

subsection \<open>View actions\<close>

definition setZoom :: "Constants \<Rightarrow> real \<Rightarrow> WorkspaceState \<Rightarrow> WorkspaceState" where
  "setZoom c z state = state\<lparr>zoom := clamp z (MIN_ZOOM c) (MAX_ZOOM c)\<rparr>"

definition setCanvasOffset :: "Point \<Rightarrow> WorkspaceState \<Rightarrow> WorkspaceState" where
  "setCanvasOffset off state = state\<lparr>canvasOffset := off\<rparr>"

definition updateView :: "Constants \<Rightarrow> real \<Rightarrow> Point \<Rightarrow> WorkspaceState \<Rightarrow> WorkspaceState" where
  "updateView c z off state =
     state\<lparr>zoom := clamp z (MIN_ZOOM c) (MAX_ZOOM c), canvasOffset := off\<rparr>"

text \<open>
  The bounding-box loop of \<^verbatim>\<open>resetView\<close>. An accumulator is \<open>None\<close> while it still
  holds its initial infinity (\<^verbatim>\<open>Infinity\<close> for the minima, \<^verbatim>\<open>-Infinity\<close> for the
  maxima). Reading \<^verbatim>\<open>shape.position\<close> of an \<^verbatim>\<open>undefined\<close> shape throws a TypeError.
\<close>

datatype error = TypeError

record Bounds =
  minX :: "real option"
  minY :: "real option"
  maxX :: "real option"
  maxY :: "real option"

definition acc_min :: "real option \<Rightarrow> real \<Rightarrow> real option" where
  "acc_min a v = (case a of None \<Rightarrow> Some v | Some m \<Rightarrow> Some (min m v))"

definition acc_max :: "real option \<Rightarrow> real \<Rightarrow> real option" where
  "acc_max a v = (case a of None \<Rightarrow> Some v | Some m \<Rightarrow> Some (max m v))"

fun bounds_loop :: "Bounds \<Rightarrow> ShapeData option list \<Rightarrow> error + Bounds" where
  "bounds_loop b [] = Inr b"
| "bounds_loop b (None # rest) = Inl TypeError"
| "bounds_loop b (Some shape # rest) =
     bounds_loop
       \<lparr>minX = acc_min (minX b) (pos_x (position shape)),
        minY = acc_min (minY b) (pos_y (position shape)),
        maxX = acc_max (maxX b) (pos_x (position shape) + width shape),
        maxY = acc_max (maxY b) (pos_y (position shape) + height shape)\<rparr>
       rest"

text \<open>
  \<^verbatim>\<open>maxX - minX\<close>; with an accumulator still infinite the difference is
  \<^verbatim>\<open>-Infinity\<close>, which is not positive, hence \<open>None\<close>.
\<close>

definition extent :: "real option \<Rightarrow> real option \<Rightarrow> real option" where
  "extent hi lo = (case (hi, lo) of (Some h, Some l) \<Rightarrow> Some (h - l) | _ \<Rightarrow> None)"

definition PADDING :: real where
  "PADDING = 50"

text \<open>\<^verbatim>\<open>resetView\<close>; \<open>Inl TypeError\<close> when the loop throws, before \<^verbatim>\<open>set\<close> is reached.\<close>

definition resetView :: "Constants \<Rightarrow> real \<Rightarrow> real \<Rightarrow> WorkspaceState \<Rightarrow> error + WorkspaceState" where
  "resetView c viewportWidth viewportHeight state =
     (let shapes = denormalizeShapes (shapeState state);
          defaults = (10, \<lparr>pos_x = 0, pos_y = 0\<rparr>);
          store = (\<lambda>(newZoom, newOffset). state\<lparr>zoom := newZoom, canvasOffset := newOffset\<rparr>)
      in if length shapes > 0 then
           (case bounds_loop \<lparr>minX = None, minY = None, maxX = None, maxY = None\<rparr> shapes of
              Inl e \<Rightarrow> Inl e
            | Inr b \<Rightarrow>
                (case (extent (maxX b) (minX b), extent (maxY b) (minY b)) of
                   (Some worldW, Some worldH) \<Rightarrow>
                     if worldW > 0 \<and> worldH > 0 then
                       let availableW = max 1 (viewportWidth - 2 * PADDING);
                           availableH = max 1 (viewportHeight - 2 * PADDING);
                           zoomToFitW = availableW / worldW;
                           zoomToFitH = availableH / worldH;
                           newZoom = clamp (min zoomToFitW zoomToFitH) (MIN_ZOOM c) (MAX_ZOOM c);
                           worldCenterX = (the (minX b) + the (maxX b)) / 2;
                           worldCenterY = (the (minY b) + the (maxY b)) / 2;
                           viewportCenterX = viewportWidth / 2;
                           viewportCenterY = viewportHeight / 2
                       in Inr (store (newZoom,
                                 \<lparr>pos_x = viewportCenterX - worldCenterX * newZoom,
                                  pos_y = viewportCenterY - worldCenterY * newZoom\<rparr>))
                     else Inr (store defaults)
                 | _ \<Rightarrow> Inr (store defaults)))
         else Inr (store defaults))"

subsection \<open>UI actions\<close>

definition setControlsPanelOpen :: "bool \<Rightarrow> WorkspaceState \<Rightarrow> WorkspaceState" where
  "setControlsPanelOpen b state = state\<lparr>isControlsPanelOpen := b\<rparr>"

definition setShapeListOpen :: "bool \<Rightarrow> WorkspaceState \<Rightarrow> WorkspaceState" where
  "setShapeListOpen b state = state\<lparr>isShapeListOpen := b\<rparr>"

definition toggleControlsPanel :: "WorkspaceState \<Rightarrow> WorkspaceState" where
  "toggleControlsPanel state = state\<lparr>isControlsPanelOpen := \<not> isControlsPanelOpen state\<rparr>"

definition toggleShapeList :: "WorkspaceState \<Rightarrow> WorkspaceState" where
  "toggleShapeList state = state\<lparr>isShapeListOpen := \<not> isShapeListOpen state\<rparr>"

subsection \<open>Hydration\<close>

definition hydrate :: "Constants \<Rightarrow> PartialPersisted \<Rightarrow> WorkspaceState \<Rightarrow> WorkspaceState" where
  "hydrate c data state =
     (let shapes = (case p_shapes data of None \<Rightarrow> [] | Some l \<Rightarrow> l)
      in state\<lparr>shapeState := normalizeShapes shapes,
               selectedShapeId := None,
               zoom := clamp (case p_zoom data of None \<Rightarrow> 10 | Some z \<Rightarrow> z)
                         (MIN_ZOOM c) (MAX_ZOOM c),
               canvasOffset := (case p_canvasOffset data of
                                  None \<Rightarrow> \<lparr>pos_x = 0, pos_y = 0\<rparr> | Some off \<Rightarrow> off),
               isControlsPanelOpen := (case p_isControlsPanelOpen data of
                                         None \<Rightarrow> False | Some b \<Rightarrow> b),
               isShapeListOpen := (case p_isShapeListOpen data of
                                     None \<Rightarrow> False | Some b \<Rightarrow> b)\<rparr>)"

section \<open>Runs of the store\<close>

text \<open>
  One constructor for each action of the store, with the arguments of the call;
  \<open>AddShape\<close> also carries the clock value read during the call.
\<close>

datatype action =
    AddShape real Point
  | UpdateSelectedShape
  | RemoveShape real
  | MoveShape real Point
  | MoveShapeLayer real string
  | ReorderShapes int int
  | SetSelectedShapeId "real option"
  | ResetFormToDefaults
  | SetCurrentShapeType ShapeType
  | SetFormWidth "real option"
  | SetFormHeight "real option"
  | SetFormBaseColor string
  | SetFormOpacity real
  | SetZoom real
  | SetCanvasOffset Point
  | UpdateView real Point
  | ResetView real real
  | SetControlsPanelOpen bool
  | SetShapeListOpen bool
  | ToggleControlsPanel
  | ToggleShapeList
  | Hydrate PartialPersisted

text \<open>
  The state after one call. A call that throws leaves the store as it was. \<open>None\<close>
  only for a \<^verbatim>\<open>reorderShapes\<close> that stores \<^verbatim>\<open>undefined\<close> in the order.
\<close>

fun step :: "Constants \<Rightarrow> action \<Rightarrow> WorkspaceState \<Rightarrow> WorkspaceState option" where
  "step c (AddShape now pos) s = Some (snd (addShape now pos s))"
| "step c UpdateSelectedShape s = Some (snd (updateSelectedShape s))"
| "step c (RemoveShape i) s = Some (removeShape i s)"
| "step c (MoveShape i pos) s = Some (moveShape i pos s)"
| "step c (MoveShapeLayer i d) s = Some (moveShapeLayer i d s)"
| "step c (ReorderShapes f t) s = reorderShapes f t s"
| "step c (SetSelectedShapeId i) s = Some (setSelectedShapeId i s)"
| "step c ResetFormToDefaults s = Some (resetFormToDefaults s)"
| "step c (SetCurrentShapeType t) s = Some (setCurrentShapeType t s)"
| "step c (SetFormWidth w) s = Some (setFormWidth w s)"
| "step c (SetFormHeight h) s = Some (setFormHeight h s)"
| "step c (SetFormBaseColor col) s = Some (setFormBaseColor col s)"
| "step c (SetFormOpacity v) s = Some (setFormOpacity v s)"
| "step c (SetZoom z) s = Some (setZoom c z s)"
| "step c (SetCanvasOffset off) s = Some (setCanvasOffset off s)"
| "step c (UpdateView z off) s = Some (updateView c z off s)"
| "step c (ResetView vw vh) s =
     Some (case resetView c vw vh s of Inl e \<Rightarrow> s | Inr s' \<Rightarrow> s')"
| "step c (SetControlsPanelOpen b) s = Some (setControlsPanelOpen b s)"
| "step c (SetShapeListOpen b) s = Some (setShapeListOpen b s)"
| "step c ToggleControlsPanel s = Some (toggleControlsPanel s)"
| "step c ToggleShapeList s = Some (toggleShapeList s)"
| "step c (Hydrate data) s = Some (hydrate c data s)"

fun run :: "Constants \<Rightarrow> action list \<Rightarrow> WorkspaceState \<Rightarrow> WorkspaceState option" where
  "run c [] s = Some s"
| "run c (a # as) s = (case step c a s of None \<Rightarrow> None | Some s' \<Rightarrow> run c as s')"

section \<open>The order invariant\<close>

text \<open>
  The order holds every id once, its ids are the keys of the entity map, and so it is as
  long as the map has entries.
\<close>

definition order_invariant :: "NormalizedShapes \<Rightarrow> bool" where
  "order_invariant ns \<longleftrightarrow>
     distinct (ids ns) \<and> set (ids ns) = dom (entities ns) \<and>
     length (ids ns) = card (dom (entities ns))"

text \<open>The first two conjuncts; the third follows from them.\<close>

definition wf_shapes :: "NormalizedShapes \<Rightarrow> bool" where
  "wf_shapes ns \<longleftrightarrow> distinct (ids ns) \<and> set (ids ns) = dom (entities ns)"

text \<open>
  The calls under which the invariant is kept: an \<^verbatim>\<open>addShape\<close> whose clock value is
  not yet an id of the order, a \<^verbatim>\<open>reorderShapes\<close> with both indices in range, a
  \<^verbatim>\<open>hydrate\<close> whose shapes have pairwise different ids; every other call.
\<close>

fun admissible :: "action \<Rightarrow> WorkspaceState \<Rightarrow> bool" where
  "admissible (AddShape now pos) s \<longleftrightarrow> now \<notin> set (ids (shapeState s))"
| "admissible (ReorderShapes f t) s \<longleftrightarrow>
     0 \<le> f \<and> f < int (length (ids (shapeState s))) \<and>
     0 \<le> t \<and> t < int (length (ids (shapeState s)))"
| "admissible (Hydrate data) s \<longleftrightarrow>
     distinct (map shape_id (case p_shapes data of None \<Rightarrow> [] | Some l \<Rightarrow> l))"
| "admissible a s \<longleftrightarrow> True"

fun admissible_run :: "Constants \<Rightarrow> action list \<Rightarrow> WorkspaceState \<Rightarrow> bool" where
  "admissible_run c [] s \<longleftrightarrow> True"
| "admissible_run c (a # as) s \<longleftrightarrow>
     admissible a s \<and>
     (case step c a s of None \<Rightarrow> False | Some s' \<Rightarrow> admissible_run c as s')"

section \<open>The zoom bound and the bounding box\<close>


text \<open>
  The bounding box of a non-empty list of shapes as the specification words it: the
  extent, on each axis, of the rectangles from \<open>position\<close> to
  \<open>position + (width, height)\<close>.
\<close>

definition bbox_width :: "ShapeData list \<Rightarrow> real" where
  "bbox_width shapes =
     Max (set (map (\<lambda>sh. pos_x (position sh) + width sh) shapes))
     - Min (set (map (\<lambda>sh. pos_x (position sh)) shapes))"

definition bbox_height :: "ShapeData list \<Rightarrow> real" where
  "bbox_height shapes =
     Max (set (map (\<lambda>sh. pos_y (position sh) + height sh) shapes))
     - Min (set (map (\<lambda>sh. pos_y (position sh)) shapes))"

section \<open>The persistence pipeline\<close>

text \<open>
  \<^verbatim>\<open>src/utils/workspace-storage.ts\<close>. A value \<^verbatim>\<open>JSON.parse\<close> returns; an object
  is the list of its properties, and reading a property takes the first entry with that
  key. \<open>None\<close> of type \<open>json option\<close> is \<^verbatim>\<open>undefined\<close>.
\<close>

datatype json =
    JNull
  | JBool bool
  | JNum real
  | JStr string
  | JArr "json list"
  | JObj "(string \<times> json) list"

fun typeof :: "json option \<Rightarrow> string" where
  "typeof None = ''undefined''"
| "typeof (Some JNull) = ''object''"
| "typeof (Some (JBool b)) = ''boolean''"
| "typeof (Some (JNum r)) = ''number''"
| "typeof (Some (JStr t)) = ''string''"
| "typeof (Some (JArr l)) = ''object''"
| "typeof (Some (JObj kvs)) = ''object''"

text \<open>
  Property access \<^verbatim>\<open>v.k\<close> for the keys the loader reads. Only an object made by
  \<^verbatim>\<open>JSON.parse\<close> has any of them; the source reads a property only of a value it has
  checked to be a non-null \<^verbatim>\<open>object\<close>.
\<close>

fun property :: "json option \<Rightarrow> string \<Rightarrow> json option" where
  "property (Some (JObj kvs)) k = map_of kvs k"
| "property v k = None"

text \<open>
  The number, string or boolean a value is, read only behind the \<^verbatim>\<open>typeof\<close> test
  for it.
\<close>

fun num_of :: "json option \<Rightarrow> real" where
  "num_of (Some (JNum r)) = r"
| "num_of v = 0"

fun str_of :: "json option \<Rightarrow> string" where
  "str_of (Some (JStr t)) = t"
| "str_of v = ''''"

fun bool_of :: "json option \<Rightarrow> bool" where
  "bool_of (Some (JBool b)) = b"
| "bool_of v = False"

definition isValidShape :: "json \<Rightarrow> bool" where
  "isValidShape shape =
     (if typeof (Some shape) \<noteq> ''object'' \<or> shape = JNull then False
      else
        let s = property (Some shape) in
          typeof (s ''id'') = ''number'' \<and>
          typeof (s ''type'') = ''string'' \<and>
          str_of (s ''type'') \<in> set [''ellipse'', ''crescent'', ''box''] \<and>
          typeof (s ''width'') = ''number'' \<and>
          num_of (s ''width'') > 0 \<and>
          typeof (s ''height'') = ''number'' \<and>
          num_of (s ''height'') > 0 \<and>
          typeof (s ''baseColor'') = ''string'' \<and>
          typeof (s ''opacity'') = ''number'' \<and>
          num_of (s ''opacity'') \<ge> 0 \<and>
          num_of (s ''opacity'') \<le> 1 \<and>
          typeof (s ''position'') = ''object'' \<and>
          s ''position'' \<noteq> Some JNull \<and>
          typeof (property (s ''position'') ''x'') = ''number'' \<and>
          typeof (property (s ''position'') ''y'') = ''number'')"

text \<open>
  The validated element seen through the type \<^verbatim>\<open>ShapeData\<close> that the type guard
  gives it.
\<close>

definition shapeType_of :: "string \<Rightarrow> ShapeType" where
  "shapeType_of t = (if t = ''ellipse'' then ellipse else if t = ''crescent'' then crescent else box)"

definition shapeData_of :: "json \<Rightarrow> ShapeData" where
  "shapeData_of shape =
     (let s = property (Some shape) in
        \<lparr>shape_id = num_of (s ''id''),
         shape_type = shapeType_of (str_of (s ''type'')),
         width = num_of (s ''width''),
         height = num_of (s ''height''),
         baseColor = str_of (s ''baseColor''),
         opacity = num_of (s ''opacity''),
         position = \<lparr>pos_x = num_of (property (s ''position'') ''x''),
                      pos_y = num_of (property (s ''position'') ''y'')\<rparr>\<rparr>)"

record PersistedWorkspace =
  w_version :: real
  w_shapes :: "ShapeData list"
  w_zoom :: real
  w_canvasOffset :: Point
  w_isControlsPanelOpen :: bool
  w_isShapeListOpen :: bool

definition VERSION :: real where
  "VERSION = 1"

text \<open>
  \<^verbatim>\<open>loadWorkspace\<close>. Its environment is a parameter: whether \<^verbatim>\<open>window\<close> is defined,
  what \<^verbatim>\<open>localStorage.getItem\<close> returns (\<open>None\<close> for \<^verbatim>\<open>null\<close>), and
  \<^verbatim>\<open>JSON.parse\<close> (\<open>None\<close> when it throws, which the \<^verbatim>\<open>catch\<close> turns into
  \<^verbatim>\<open>null\<close>). \<open>None\<close> as result is \<^verbatim>\<open>null\<close>, no prior state.
\<close>

definition loadWorkspace ::
  "Constants \<Rightarrow> bool \<Rightarrow> string option \<Rightarrow> (string \<Rightarrow> json option) \<Rightarrow> PersistedWorkspace option" where
  "loadWorkspace c window_defined stored_item json_parse =
     (if \<not> window_defined then None
      else case stored_item of
        None \<Rightarrow> None
      | Some stored \<Rightarrow>
          if stored = [] then None
          else case json_parse stored of
            None \<Rightarrow> None
          | Some parsed \<Rightarrow>
              if typeof (Some parsed) \<noteq> ''object'' \<or> parsed = JNull then None
              else if property (Some parsed) ''version'' \<noteq> Some (JNum VERSION) then None
              else case property (Some parsed) ''shapes'' of
                Some (JArr elems) \<Rightarrow>
                  let validShapes = filter isValidShape elems;
                      zoom = (if typeof (property (Some parsed) ''zoom'') = ''number''
                              then clamp (num_of (property (Some parsed) ''zoom''))
                                     (MIN_ZOOM c) (MAX_ZOOM c)
                              else 10);
                      off = property (Some parsed) ''canvasOffset'';
                      canvasOffset =
                        (if typeof off = ''object'' \<and> off \<noteq> Some JNull \<and>
                            typeof (property off ''x'') = ''number'' \<and>
                            typeof (property off ''y'') = ''number''
                         then \<lparr>pos_x = num_of (property off ''x''), pos_y = num_of (property off ''y'')\<rparr>
                         else \<lparr>pos_x = 0, pos_y = 0\<rparr>);
                      isControlsPanelOpen =
                        (if typeof (property (Some parsed) ''isControlsPanelOpen'') = ''boolean''
                         then bool_of (property (Some parsed) ''isControlsPanelOpen'') else False);
                      isShapeListOpen =
                        (if typeof (property (Some parsed) ''isShapeListOpen'') = ''boolean''
                         then bool_of (property (Some parsed) ''isShapeListOpen'') else False)
                  in Some \<lparr>w_version = VERSION,
                           w_shapes = map shapeData_of validShapes,
                           w_zoom = zoom,
                           w_canvasOffset = canvasOffset,
                           w_isControlsPanelOpen = isControlsPanelOpen,
                           w_isShapeListOpen = isShapeListOpen\<rparr>
              | _ \<Rightarrow> None)"

text \<open>
  The schema of a stored shape as the specification lists it: id numeric, kind in the
  fixed enumeration, width and height positive numbers, baseColor a string, opacity a
  number in \<open>[0, 1]\<close>, position with both fields numeric.
\<close>

fun is_num :: "json option \<Rightarrow> bool" where
  "is_num (Some (JNum r)) = True"
| "is_num v = False"

fun is_str :: "json option \<Rightarrow> bool" where
  "is_str (Some (JStr t)) = True"
| "is_str v = False"

fun num_satisfies :: "(real \<Rightarrow> bool) \<Rightarrow> json option \<Rightarrow> bool" where
  "num_satisfies P (Some (JNum r)) = P r"
| "num_satisfies P v = False"

fun kind_in_enum :: "json option \<Rightarrow> bool" where
  "kind_in_enum (Some (JStr t)) = (t = ''ellipse'' \<or> t = ''crescent'' \<or> t = ''box'')"
| "kind_in_enum v = False"

fun numeric_pair :: "json option \<Rightarrow> bool" where
  "numeric_pair (Some (JObj kvs)) = (is_num (map_of kvs ''x'') \<and> is_num (map_of kvs ''y''))"
| "numeric_pair v = False"

fun schema_valid :: "json \<Rightarrow> bool" where
  "schema_valid (JObj kvs) =
     (is_num (map_of kvs ''id'') \<and>
      kind_in_enum (map_of kvs ''type'') \<and>
      num_satisfies (\<lambda>w. 0 < w) (map_of kvs ''width'') \<and>
      num_satisfies (\<lambda>h. 0 < h) (map_of kvs ''height'') \<and>
      is_str (map_of kvs ''baseColor'') \<and>
      num_satisfies (\<lambda>a. 0 \<le> a \<and> a \<le> 1) (map_of kvs ''opacity'') \<and>
      numeric_pair (map_of kvs ''position''))"
| "schema_valid v = False"

text \<open>
  A stored payload with two valid shapes around one with a negative width.
\<close>

definition example_shape :: "real \<Rightarrow> string \<Rightarrow> real \<Rightarrow> json" where
  "example_shape i t w =
     JObj [(''id'', JNum i), (''type'', JStr t), (''width'', JNum w), (''height'', JNum 4),
           (''baseColor'', JStr ''#112233''), (''opacity'', JNum (1 / 2)),
           (''position'', JObj [(''x'', JNum 1), (''y'', JNum 2)])]"

definition example_payload :: json where
  "example_payload =
     JObj [(''version'', JNum 1),
           (''shapes'', JArr [example_shape 1 ''box'' 3, example_shape 2 ''ellipse'' (- 3),
                             example_shape 3 ''crescent'' 5]),
           (''zoom'', JNum 12)]"

section \<open>The object graph of the shape collection\<close>

text \<open>
  Object identity, for the statements about sharing. The heap is the list of the objects
  allocated so far, an address is an index into it, and a new object goes to the end.
  Three kinds of objects matter: the \<^verbatim>\<open>ids\<close> array (an element \<open>None\<close> is
  \<^verbatim>\<open>undefined\<close>), the \<^verbatim>\<open>entities\<close> record, which maps an id to the address of its
  shape, and a shape. \<open>RefShapes\<close> is \<^verbatim>\<open>state.shapeState\<close> with its two references;
  the wrapper objects around them and the position objects are not kept on the heap.
\<close>

type_synonym addr = nat

datatype obj =
    IdsArray "real option list"
  | EntitiesRecord "real \<rightharpoonup> addr"
  | ShapeObject ShapeData

record RefShapes =
  heap :: "obj list"
  ids_ref :: addr
  entities_ref :: addr

definition fetch :: "obj list \<Rightarrow> addr \<Rightarrow> obj option" where
  "fetch h a = (if a < length h then Some (h ! a) else None)"

definition alloc :: "obj list \<Rightarrow> obj \<Rightarrow> obj list \<times> addr" where
  "alloc h v = (h @ [v], length h)"

definition ids_at :: "obj list \<Rightarrow> addr \<Rightarrow> real option list option" where
  "ids_at h a = (case fetch h a of Some (IdsArray xs) \<Rightarrow> Some xs | _ \<Rightarrow> None)"

definition entities_at :: "obj list \<Rightarrow> addr \<Rightarrow> (real \<rightharpoonup> addr) option" where
  "entities_at h a = (case fetch h a of Some (EntitiesRecord m) \<Rightarrow> Some m | _ \<Rightarrow> None)"

definition shape_at :: "obj list \<Rightarrow> addr \<Rightarrow> ShapeData option" where
  "shape_at h a = (case fetch h a of Some (ShapeObject sh) \<Rightarrow> Some sh | _ \<Rightarrow> None)"

definition entity_ref :: "RefShapes \<Rightarrow> real \<Rightarrow> addr option" where
  "entity_ref rs i = (case entities_at (heap rs) (entities_ref rs) of None \<Rightarrow> None | Some m \<Rightarrow> m i)"

text \<open>
  The heap is typed as TypeScript types it, and the collection it then stands for.
\<close>

definition well_typed :: "RefShapes \<Rightarrow> bool" where
  "well_typed rs \<longleftrightarrow>
     (case ids_at (heap rs) (ids_ref rs) of None \<Rightarrow> False | Some xs \<Rightarrow> None \<notin> set xs) \<and>
     (case entities_at (heap rs) (entities_ref rs) of
        None \<Rightarrow> False
      | Some m \<Rightarrow> \<forall>i a. m i = Some a \<longrightarrow> shape_at (heap rs) a \<noteq> None)"

definition denote :: "RefShapes \<Rightarrow> NormalizedShapes" where
  "denote rs =
     \<lparr>ids = (case ids_at (heap rs) (ids_ref rs) of None \<Rightarrow> [] | Some xs \<Rightarrow> map the xs),
      entities = (\<lambda>i. case entity_ref rs i of None \<Rightarrow> None | Some a \<Rightarrow> shape_at (heap rs) a)\<rparr>"

text \<open>
  \<^verbatim>\<open>moveShape\<close> on the object graph: the two spreads allocate a new shape and a new
  \<^verbatim>\<open>entities\<close> record; the reference to the \<^verbatim>\<open>ids\<close> array is copied.
\<close>

definition moveShape_ref :: "real \<Rightarrow> Point \<Rightarrow> RefShapes \<Rightarrow> RefShapes" where
  "moveShape_ref i pos rs =
     (case entities_at (heap rs) (entities_ref rs) of
        None \<Rightarrow> rs
      | Some m \<Rightarrow>
          (case m i of
             None \<Rightarrow> rs
           | Some a \<Rightarrow>
               (case shape_at (heap rs) a of
                  None \<Rightarrow> rs
                | Some existingShape \<Rightarrow>
                    let (h1, a1) = alloc (heap rs) (ShapeObject (existingShape\<lparr>position := pos\<rparr>));
                        (h2, e1) = alloc h1 (EntitiesRecord (m(i \<mapsto> a1)))
                    in rs\<lparr>heap := h2, entities_ref := e1\<rparr>)))"

text \<open>
  \<^verbatim>\<open>moveShapeLayer\<close> on the object graph: \<^verbatim>\<open>[...state.shapeState.ids]\<close> allocates a
  copy, the splices, \<^verbatim>\<open>push\<close> and \<^verbatim>\<open>unshift\<close> then change that copy in place, and
  the reference to the \<^verbatim>\<open>entities\<close> record is copied.
\<close>

definition moveShapeLayer_ref :: "real \<Rightarrow> string \<Rightarrow> RefShapes \<Rightarrow> RefShapes" where
  "moveShapeLayer_ref shapeId direction rs =
     (case ids_at (heap rs) (ids_ref rs) of
        None \<Rightarrow> rs
      | Some old \<Rightarrow>
          if indexOf old (Some shapeId) = - 1 then rs
          else
            let (h1, n) = alloc (heap rs) (IdsArray old);
                h2 = h1[n := IdsArray (layer_order old (Some shapeId) direction)]
            in rs\<lparr>heap := h2, ids_ref := n\<rparr>)"

text \<open>
  \<^verbatim>\<open>reorderShapes\<close> on the object graph. Here the array may end up holding
  \<^verbatim>\<open>undefined\<close>, when the first \<^verbatim>\<open>splice\<close> removes nothing.
\<close>

definition reorder_array :: "'a option list \<Rightarrow> int \<Rightarrow> int \<Rightarrow> 'a option list" where
  "reorder_array old fromIndex toIndex =
     (let (newIds, removed) = splice old fromIndex 1 [];
          movedId = (case removed of [] \<Rightarrow> None | m # _ \<Rightarrow> m)
      in fst (splice newIds toIndex 0 [movedId]))"

definition reorderShapes_ref :: "int \<Rightarrow> int \<Rightarrow> RefShapes \<Rightarrow> RefShapes" where
  "reorderShapes_ref fromIndex toIndex rs =
     (case ids_at (heap rs) (ids_ref rs) of
        None \<Rightarrow> rs
      | Some old \<Rightarrow>
          let (h1, n) = alloc (heap rs) (IdsArray old);
              h2 = h1[n := IdsArray (reorder_array old fromIndex toIndex)]
          in rs\<lparr>heap := h2, ids_ref := n\<rparr>)"

text \<open>
  A store with two shapes and an object graph for its collection.
\<close>

definition example_state :: WorkspaceState where
  "example_state =
     snd (addShape 2 \<lparr>pos_x = 5, pos_y = 5\<rparr>
            (snd (addShape 1 \<lparr>pos_x = 0, pos_y = 0\<rparr> DEFAULT_STATE)))"

definition example_shape_at :: "real \<Rightarrow> real \<Rightarrow> ShapeData" where
  "example_shape_at i v =
     \<lparr>shape_id = i, shape_type = ellipse, width = 10, height = 10,
      baseColor = ''#007BFF'', opacity = 1, position = \<lparr>pos_x = v, pos_y = v\<rparr>\<rparr>"

definition example_refs :: RefShapes where
  "example_refs =
     \<lparr>heap = [IdsArray [Some 1, Some 2],
              ShapeObject (example_shape_at 1 0),
              ShapeObject (example_shape_at 2 5),
              EntitiesRecord [1 \<mapsto> 1, 2 \<mapsto> 2]],
      ids_ref = 0,
      entities_ref = 3\<rparr>"

section \<open>Example states\<close>

text \<open>
  Values for the two zoom constants, with the default zoom between them.
\<close>

definition example_constants :: Constants where
  "example_constants = \<lparr>MIN_ZOOM = 1, MAX_ZOOM = 100\<rparr>"

text \<open>
  A session: two shapes are added, the first is brought to the front and back again by
  a reorder, it is selected and updated, the other one is removed, and a saved workspace
  with one shape is loaded.
\<close>

definition example_run :: "action list" where
  "example_run =
     [AddShape 1000 \<lparr>pos_x = 3 / 2, pos_y = 2\<rparr>,
      AddShape 1001 \<lparr>pos_x = 0, pos_y = 0\<rparr>,
      MoveShapeLayer 1000 ''toFront'',
      ReorderShapes 0 1,
      SetSelectedShapeId (Some 1000),
      UpdateSelectedShape,
      RemoveShape 1001,
      Hydrate \<lparr>p_version = Some 1,
               p_shapes = Some [\<lparr>shape_id = 1, shape_type = box, width = 2, height = 3,
                                 baseColor = ''#000000'', opacity = 1,
                                 position = \<lparr>pos_x = 0, pos_y = 0\<rparr>\<rparr>],
               p_zoom = None, p_canvasOffset = None,
               p_isControlsPanelOpen = None, p_isShapeListOpen = None\<rparr>]"

text \<open>A workspace record whose two shapes have the same id.\<close>

definition duplicate_id_data :: PartialPersisted where
  "duplicate_id_data =
     \<lparr>p_version = Some 1,
      p_shapes = Some [\<lparr>shape_id = 1, shape_type = box, width = 2, height = 3,
                        baseColor = ''#000000'', opacity = 1,
                        position = \<lparr>pos_x = 0, pos_y = 0\<rparr>\<rparr>,
                       \<lparr>shape_id = 1, shape_type = ellipse, width = 5, height = 5,
                        baseColor = ''#FFFFFF'', opacity = 1,
                        position = \<lparr>pos_x = 4, pos_y = 4\<rparr>\<rparr>],
      p_zoom = None, p_canvasOffset = None,
      p_isControlsPanelOpen = None, p_isShapeListOpen = None\<rparr>"


text \<open>
  A shape is added and selected, and the draft is then edited: width 4, kind box.
\<close>

definition editing_state :: WorkspaceState where
  "editing_state =
     setCurrentShapeType box
       (setFormWidth (Some 4)
          (setSelectedShapeId (Some 1000)
             (snd (addShape 1000 \<lparr>pos_x = 2, pos_y = 3\<rparr> DEFAULT_STATE))))"

text \<open>The initial state with a selected id that has no entity.\<close>

definition dangling_selection_state :: WorkspaceState where
  "dangling_selection_state = DEFAULT_STATE\<lparr>selectedShapeId := Some 5\<rparr>"

text \<open>The initial state with a pending width of 5, and the same with a shape added.\<close>

definition pending_state :: WorkspaceState where
  "pending_state = setFormWidth (Some 5) DEFAULT_STATE"

definition one_shape_state :: WorkspaceState where
  "one_shape_state = snd (addShape 1000 \<lparr>pos_x = 2, pos_y = 3\<rparr> pending_state)"

text \<open>
  A store whose only shape has width 0, with a view that differs from the default one:
  \<^verbatim>\<open>hydrate\<close> takes the shapes it is given without checking them.
\<close>

definition degenerate_state :: WorkspaceState where
  "degenerate_state =
     updateView example_constants 25 \<lparr>pos_x = 7, pos_y = 8\<rparr>
       (hydrate example_constants
          \<lparr>p_version = Some 1,
           p_shapes = Some [\<lparr>shape_id = 1, shape_type = box, width = 0, height = 5,
                             baseColor = ''#000000'', opacity = 1,
                             position = \<lparr>pos_x = 3, pos_y = 4\<rparr>\<rparr>],
           p_zoom = None, p_canvasOffset = None,
           p_isControlsPanelOpen = None, p_isShapeListOpen = None\<rparr>
          DEFAULT_STATE)"

section \<open>Properties of the helpers\<close>

lemma order_invariantI:
  "distinct (ids ns) \<Longrightarrow> set (ids ns) = dom (entities ns) \<Longrightarrow> order_invariant ns"
  unfolding order_invariant_def using distinct_card by metis

lemma splice_mset:
  "mset (fst (splice xs start dc items)) + mset (snd (splice xs start dc items))
     = mset xs + mset items"
proof -
  define k where "k = nat (if start < 0 then max (int (length xs) + start) 0 else min start (int (length xs)))"
  define d where "d = min dc (length xs - k)"
  have "mset xs = mset (take k xs) + mset (drop k xs)"
    by (metis append_take_drop_id mset_append)
  also have "mset (drop k xs) = mset (take d (drop k xs)) + mset (drop d (drop k xs))"
    by (metis append_take_drop_id mset_append)
  finally have "mset xs = mset (take k xs) + mset (take d (drop k xs)) + mset (drop (k + d) xs)"
    by (simp add: add.commute)
  then show ?thesis
    by (simp add: splice_def Let_def k_def d_def add.commute)
qed

lemma splice_removed_length: "length (snd (splice xs start dc items)) \<le> dc"
  by (simp add: splice_def Let_def)

lemma splice_insert_mset: "mset (fst (splice xs start 0 [v])) = add_mset v (mset xs)"
  using splice_mset [of xs start 0 "[v]"] by (simp add: splice_def Let_def)

lemma indexOf_found:
  "indexOf xs v \<noteq> - 1 \<Longrightarrow> 0 \<le> indexOf xs v \<and> nat (indexOf xs v) < length xs \<and> xs ! nat (indexOf xs v) = v"
proof (induction xs)
  case Nil
  then show ?case by simp
next
  case (Cons a xs)
  show ?case
  proof (cases "a = v")
    case True
    then show ?thesis by simp
  next
    case False
    with Cons.prems have ne: "indexOf xs v \<noteq> - 1" by (auto simp: Let_def split: if_splits)
    from Cons.IH [OF ne] False ne show ?thesis
      by (simp add: Let_def nat_add_distrib)
  qed
qed

lemma indexOf_absent: "indexOf xs v = - 1 \<longleftrightarrow> v \<notin> set xs"
proof (induction xs)
  case Nil
  then show ?case by simp
next
  case (Cons a xs)
  have "0 \<le> indexOf xs v \<or> indexOf xs v = - 1"
    using indexOf_found [of xs v] by blast
  with Cons show ?case by (auto simp: Let_def)
qed

lemma splice_remove_one:
  assumes "0 \<le> k" "nat k < length xs"
  shows "snd (splice xs k 1 []) = [xs ! nat k]"
proof -
  from assms have k: "nat (if k < 0 then max (int (length xs) + k) 0 else min k (int (length xs))) = nat k"
    by simp
  from assms have d: "min 1 (length xs - nat k) = 1" by simp
  have "take 1 (drop (nat k) xs) = [xs ! nat k]"
    using assms(2) by (simp add: take_Suc_conv_app_nth One_nat_def)
  then show ?thesis
    unfolding splice_def Let_def k d by simp
qed

lemma layer_order_mset:
  assumes "indexOf old v \<noteq> - 1"
  shows "mset (layer_order old v d) = mset old"
proof -
  from indexOf_found [OF assms]
  have "snd (splice old (indexOf old v) 1 []) = [v]"
    using splice_remove_one by metis
  with splice_mset [of old "indexOf old v" 1 "[]"]
  have rem: "add_mset v (mset (fst (splice old (indexOf old v) 1 []))) = mset old"
    by simp
  show ?thesis
    unfolding layer_order_def Let_def
    using rem by (simp add: splice_insert_mset)
qed

lemma reorder_order_mset:
  assumes "reorder_order old f t = Some new"
  shows "mset new = mset old"
proof -
  obtain a b where sp: "splice old f 1 [] = (a, b)" by (cases "splice old f 1 []")
  with assms obtain m rest where b: "b = m # rest" and new: "new = fst (splice a t 0 [m])"
    by (auto simp: reorder_order_def split: list.splits)
  have "length b \<le> 1" using splice_removed_length [of old f 1 "[]"] sp by simp
  with b have b1: "b = [m]" by simp
  from splice_mset [of old f 1 "[]"] sp b1 have "add_mset m (mset a) = mset old" by simp
  with new show ?thesis by (simp add: splice_insert_mset)
qed

lemma reorder_order_in_range:
  assumes "0 \<le> f" "f < int (length old)"
  shows "\<exists>new. reorder_order old f t = Some new"
proof -
  from assms have "nat f < length old" by linarith
  from splice_remove_one [OF assms(1) this]
  show ?thesis by (auto simp: reorder_order_def split: prod.splits)
qed

lemma normalizeShapes_fold:
  "ids (foldl (\<lambda>acc shape. \<lparr>ids = ids acc @ [shape_id shape],
                          entities = (entities acc)(shape_id shape \<mapsto> shape)\<rparr>) acc shapes)
     = ids acc @ map shape_id shapes \<and>
   dom (entities (foldl (\<lambda>acc shape. \<lparr>ids = ids acc @ [shape_id shape],
                          entities = (entities acc)(shape_id shape \<mapsto> shape)\<rparr>) acc shapes))
     = dom (entities acc) \<union> set (map shape_id shapes)"
  by (induction shapes arbitrary: acc) auto

lemma normalizeShapes_ids: "ids (normalizeShapes shapes) = map shape_id shapes"
  unfolding normalizeShapes_def using normalizeShapes_fold [of "\<lparr>ids = [], entities = Map.empty\<rparr>" shapes]
  by simp

lemma normalizeShapes_dom: "dom (entities (normalizeShapes shapes)) = set (map shape_id shapes)"
  unfolding normalizeShapes_def using normalizeShapes_fold [of "\<lparr>ids = [], entities = Map.empty\<rparr>" shapes]
  by simp

lemma wf_addShape:
  assumes "wf_shapes (shapeState s)" "now \<notin> set (ids (shapeState s))"
  shows "wf_shapes (shapeState (snd (addShape now pos s)))"
  using assms by (auto simp: wf_shapes_def addShape_def reset_form_def Let_def)

lemma wf_updateSelectedShape:
  assumes "wf_shapes (shapeState s)"
  shows "wf_shapes (shapeState (snd (updateSelectedShape s)))"
  using assms
  by (auto simp: wf_shapes_def updateSelectedShape_def reset_form_def split: option.splits)

lemma wf_removeShape:
  assumes "wf_shapes (shapeState s)"
  shows "wf_shapes (shapeState (removeShape i s))"
  using assms by (auto simp: wf_shapes_def removeShape_def Let_def)

lemma wf_moveShape:
  assumes "wf_shapes (shapeState s)"
  shows "wf_shapes (shapeState (moveShape i pos s))"
  using assms by (auto simp: wf_shapes_def moveShape_def split: option.splits)

lemma wf_same_mset:
  assumes "wf_shapes ns" "mset new = mset (ids ns)"
  shows "wf_shapes (ns\<lparr>ids := new\<rparr>)"
  using assms mset_eq_setD [OF assms(2)] mset_eq_imp_distinct_iff [OF assms(2)]
  by (simp add: wf_shapes_def)

lemma wf_moveShapeLayer:
  assumes "wf_shapes (shapeState s)"
  shows "wf_shapes (shapeState (moveShapeLayer i d s))"
  using assms by (simp add: moveShapeLayer_def wf_same_mset layer_order_mset)

lemma wf_reorderShapes:
  assumes "wf_shapes (shapeState s)" "reorderShapes f t s = Some s'"
  shows "wf_shapes (shapeState s')"
  using assms
  by (auto simp: reorderShapes_def wf_same_mset reorder_order_mset split: option.splits)

lemma wf_hydrate:
  assumes "distinct (map shape_id (case p_shapes data of None \<Rightarrow> [] | Some l \<Rightarrow> l))"
  shows "wf_shapes (shapeState (hydrate c data s))"
  using assms
  by (simp add: hydrate_def Let_def wf_shapes_def normalizeShapes_ids normalizeShapes_dom)

lemma shapeState_resetView:
  "shapeState (case resetView c vw vh s of Inl e \<Rightarrow> s | Inr s' \<Rightarrow> s') = shapeState s"
  by (auto simp: resetView_def Let_def split: sum.splits option.splits prod.splits if_splits)

lemma wf_step:
  assumes "wf_shapes (shapeState s)" "admissible a s" "step c a s = Some s'"
  shows "wf_shapes (shapeState s')"
proof (cases a)
  case (AddShape now pos)
  with assms show ?thesis using wf_addShape by auto
next
  case UpdateSelectedShape
  with assms show ?thesis using wf_updateSelectedShape by auto
next
  case (RemoveShape i)
  with assms show ?thesis using wf_removeShape by auto
next
  case (MoveShape i pos)
  with assms show ?thesis using wf_moveShape by auto
next
  case (MoveShapeLayer i d)
  with assms show ?thesis using wf_moveShapeLayer by auto
next
  case (ReorderShapes f t)
  with assms show ?thesis using wf_reorderShapes by auto
next
  case (SetSelectedShapeId i)
  with assms show ?thesis
    by (auto simp: setSelectedShapeId_def Let_def split: option.splits)
next
  case (ResetView vw vh)
  with assms show ?thesis using shapeState_resetView by auto
next
  case (Hydrate data)
  with assms show ?thesis using wf_hydrate by auto
qed (use assms in \<open>auto simp: resetFormToDefaults_def reset_form_def setCurrentShapeType_def
      setFormWidth_def setFormHeight_def setFormBaseColor_def setFormOpacity_def setZoom_def
      setCanvasOffset_def updateView_def setControlsPanelOpen_def setShapeListOpen_def
      toggleControlsPanel_def toggleShapeList_def\<close>)

lemma step_defined:
  assumes "admissible a s"
  shows "\<exists>s'. step c a s = Some s'"
proof (cases a)
  case (ReorderShapes f t)
  with assms have "0 \<le> f" "f < int (length (ids (shapeState s)))" by auto
  from reorder_order_in_range [OF this, of t] obtain new
    where "reorder_order (ids (shapeState s)) f t = Some new" by blast
  with ReorderShapes show ?thesis
    by (simp add: reorderShapes_def)
qed simp_all

lemma wf_run:
  assumes "wf_shapes (shapeState s)" "admissible_run c acts s"
  shows "\<exists>s'. run c acts s = Some s' \<and> wf_shapes (shapeState s')"
  using assms
proof (induction acts arbitrary: s)
  case Nil
  then show ?case by simp
next
  case (Cons a acts)
  from Cons.prems(2) obtain s1 where s1: "step c a s = Some s1"
    and adm: "admissible a s" and rest: "admissible_run c acts s1"
    by (auto split: option.splits)
  from wf_step [OF Cons.prems(1) adm s1] have "wf_shapes (shapeState s1)" .
  from Cons.IH [OF this rest] s1 show ?case by simp
qed

subsection \<open>The zoom bound\<close>





subsection \<open>The bounding-box loop\<close>

lemma foldl_acc_min_Some: "foldl acc_min (Some m) vs = Some (Min (insert m (set vs)))"
proof (induction vs arbitrary: m)
  case Nil
  then show ?case by simp
next
  case (Cons v vs)
  have "Min (insert (min m v) (set vs)) = Min (insert m (insert v (set vs)))"
  proof (cases "vs = []")
    case True
    then show ?thesis by simp
  next
    case False
    then have ne: "set vs \<noteq> {}" by simp
    have "Min (insert m (insert v (set vs))) = min m (min v (Min (set vs)))"
      using ne by simp
    also have "\<dots> = min (min m v) (Min (set vs))" by (simp add: min.assoc)
    also have "\<dots> = Min (insert (min m v) (set vs))" using ne by simp
    finally show ?thesis by simp
  qed
  with Cons.IH [of "min m v"] show ?case by (simp add: acc_min_def)
qed

lemma foldl_acc_max_Some: "foldl acc_max (Some m) vs = Some (Max (insert m (set vs)))"
proof (induction vs arbitrary: m)
  case Nil
  then show ?case by simp
next
  case (Cons v vs)
  have "Max (insert (max m v) (set vs)) = Max (insert m (insert v (set vs)))"
  proof (cases "vs = []")
    case True
    then show ?thesis by simp
  next
    case False
    then have ne: "set vs \<noteq> {}" by simp
    have "Max (insert m (insert v (set vs))) = max m (max v (Max (set vs)))"
      using ne by simp
    also have "\<dots> = max (max m v) (Max (set vs))" by (simp add: max.assoc)
    also have "\<dots> = Max (insert (max m v) (set vs))" using ne by simp
    finally show ?thesis by simp
  qed
  with Cons.IH [of "max m v"] show ?case by (simp add: acc_max_def)
qed

lemma foldl_acc_min_None: "vs \<noteq> [] \<Longrightarrow> foldl acc_min None vs = Some (Min (set vs))"
  by (cases vs) (simp_all add: acc_min_def foldl_acc_min_Some)

lemma foldl_acc_max_None: "vs \<noteq> [] \<Longrightarrow> foldl acc_max None vs = Some (Max (set vs))"
  by (cases vs) (simp_all add: acc_max_def foldl_acc_max_Some)

lemma bounds_loop_defined:
  "bounds_loop b (map Some shapes) =
     Inr \<lparr>minX = foldl acc_min (minX b) (map (\<lambda>sh. pos_x (position sh)) shapes),
          minY = foldl acc_min (minY b) (map (\<lambda>sh. pos_y (position sh)) shapes),
          maxX = foldl acc_max (maxX b) (map (\<lambda>sh. pos_x (position sh) + width sh) shapes),
          maxY = foldl acc_max (maxY b) (map (\<lambda>sh. pos_y (position sh) + height sh) shapes)\<rparr>"
  by (induction shapes arbitrary: b) simp_all

lemma bounds_loop_bbox:
  assumes "shapes \<noteq> []"
  shows "\<exists>b. bounds_loop \<lparr>minX = None, minY = None, maxX = None, maxY = None\<rparr> (map Some shapes) = Inr b \<and>
     extent (maxX b) (minX b) = Some (bbox_width shapes) \<and>
     extent (maxY b) (minY b) = Some (bbox_height shapes)"
  using assms
  by (simp add: bounds_loop_defined foldl_acc_min_None foldl_acc_max_None extent_def
      bbox_width_def bbox_height_def)

subsection \<open>The validator and the schema\<close>

lemma typeof_number: "typeof v = ''number'' \<longleftrightarrow> is_num v"
  by (induction v rule: typeof.induct) simp_all

lemma typeof_string: "typeof v = ''string'' \<longleftrightarrow> is_str v"
  by (induction v rule: typeof.induct) simp_all

lemma num_satisfies_iff: "num_satisfies P v \<longleftrightarrow> is_num v \<and> P (num_of v)"
  by (induction v rule: typeof.induct) simp_all

lemma kind_in_enum_iff:
  "kind_in_enum v \<longleftrightarrow> is_str v \<and> str_of v \<in> set [''ellipse'', ''crescent'', ''box'']"
  by (induction v rule: typeof.induct) simp_all

lemma numeric_pair_iff:
  "numeric_pair v \<longleftrightarrow>
     typeof v = ''object'' \<and> v \<noteq> Some JNull \<and>
     is_num (property v ''x'') \<and> is_num (property v ''y'')"
  by (induction v rule: typeof.induct) simp_all

lemma isValidShape_schema: "isValidShape shape = schema_valid shape"
proof (cases shape)
  case (JObj kvs)
  then show ?thesis
    unfolding isValidShape_def Let_def
    by (simp only: typeof_number typeof_string num_satisfies_iff kind_in_enum_iff
        numeric_pair_iff schema_valid.simps property.simps) auto
qed (simp_all add: isValidShape_def)

subsection \<open>The object graph\<close>

lemma map_Some_the: "None \<notin> set xs \<Longrightarrow> map Some (map the xs) = xs"
  by (induction xs) auto

lemma well_typed_iff:
  "well_typed rs \<longleftrightarrow>
     (\<exists>xs. ids_at (heap rs) (ids_ref rs) = Some (map Some xs)) \<and>
     (\<exists>m. entities_at (heap rs) (entities_ref rs) = Some m \<and>
          (\<forall>i a. m i = Some a \<longrightarrow> shape_at (heap rs) a \<noteq> None))"
proof -
  have "(case ids_at (heap rs) (ids_ref rs) of None \<Rightarrow> False | Some xs \<Rightarrow> None \<notin> set xs)
        \<longleftrightarrow> (\<exists>xs. ids_at (heap rs) (ids_ref rs) = Some (map Some xs))"
  proof (cases "ids_at (heap rs) (ids_ref rs)")
    case None
    then show ?thesis by simp
  next
    case (Some ys)
    show ?thesis
    proof
      assume "case ids_at (heap rs) (ids_ref rs) of None \<Rightarrow> False | Some xs \<Rightarrow> None \<notin> set xs"
      with Some have "None \<notin> set ys" by simp
      from map_Some_the [OF this] have "ys = map Some (map the ys)" by simp
      with Some show "\<exists>xs. ids_at (heap rs) (ids_ref rs) = Some (map Some xs)" by metis
    next
      assume "\<exists>xs. ids_at (heap rs) (ids_ref rs) = Some (map Some xs)"
      then show "case ids_at (heap rs) (ids_ref rs) of None \<Rightarrow> False | Some xs \<Rightarrow> None \<notin> set xs"
        by auto
    qed
  qed
  then show ?thesis
    unfolding well_typed_def by (auto split: option.splits)
qed

lemma fetch_prefix: "prefix h h' \<Longrightarrow> fetch h a = Some v \<Longrightarrow> fetch h' a = Some v"
  by (auto simp: fetch_def prefix_def nth_append split: if_splits)

lemma shape_at_prefix: "prefix h h' \<Longrightarrow> shape_at h a = Some v \<Longrightarrow> shape_at h' a = Some v"
  by (auto simp: shape_at_def dest: fetch_prefix split: option.splits obj.splits)

lemma ids_at_prefix: "prefix h h' \<Longrightarrow> ids_at h a = Some v \<Longrightarrow> ids_at h' a = Some v"
  by (auto simp: ids_at_def dest: fetch_prefix split: option.splits obj.splits)

lemma entities_at_prefix: "prefix h h' \<Longrightarrow> entities_at h a = Some v \<Longrightarrow> entities_at h' a = Some v"
  by (auto simp: entities_at_def dest: fetch_prefix split: option.splits obj.splits)

lemma moveShape_ref_unfold:
  assumes "entities_at (heap rs) (entities_ref rs) = Some m" "m i = Some a"
    "shape_at (heap rs) a = Some e"
  shows "moveShape_ref i pos rs =
     rs\<lparr>heap := heap rs @ [ShapeObject (e\<lparr>position := pos\<rparr>),
                           EntitiesRecord (m(i \<mapsto> length (heap rs)))],
        entities_ref := Suc (length (heap rs))\<rparr>"
  using assms by (simp add: moveShape_ref_def alloc_def)

lemma splice_map:
  "splice (map f xs) start dc (map f items) =
     (map f (fst (splice xs start dc items)), map f (snd (splice xs start dc items)))"
  by (simp add: splice_def Let_def take_map drop_map)

lemma indexOf_map: "inj f \<Longrightarrow> indexOf (map f xs) (f v) = indexOf xs v"
  by (induction xs) (auto simp: Let_def dest: injD)

lemma layer_order_map:
  assumes "inj f"
  shows "layer_order (map f old) (f v) d = map f (layer_order old v d)"
proof -
  have s1: "\<And>xs k. fst (splice (map f xs) k 1 []) = map f (fst (splice xs k 1 []))"
    using splice_map [of f _ _ 1 "[]"] by simp
  have s0: "\<And>xs k. fst (splice (map f xs) k 0 [f v]) = map f (fst (splice xs k 0 [v]))"
    using splice_map [of f _ _ 0 "[v]"] by simp
  show ?thesis
    unfolding layer_order_def Let_def indexOf_map [OF assms] s1 s0
    by simp
qed

lemma reorder_array_map:
  assumes "reorder_order old f t = Some new"
  shows "reorder_array (map Some old) f t = map Some new"
proof -
  obtain a b where sp: "splice old f 1 [] = (a, b)" by (cases "splice old f 1 []")
  with assms obtain m rest where b: "b = m # rest" and new: "new = fst (splice a t 0 [m])"
    by (auto simp: reorder_order_def split: list.splits)
  from splice_map [of Some old f 1 "[]"] sp
  have sp': "splice (map Some old) f 1 [] = (map Some a, map Some b)" by simp
  from splice_map [of Some a t 0 "[m]"]
  have "fst (splice (map Some a) t 0 [Some m]) = map Some (fst (splice a t 0 [m]))" by simp
  with sp' b new show ?thesis
    by (simp add: reorder_array_def)
qed

lemma ids_at_appended: "ids_at (h @ [IdsArray xs]) (length h) = Some xs"
  by (simp add: ids_at_def fetch_def)

lemma frame_ids_update:
  assumes "well_typed rs"
  shows "well_typed (rs\<lparr>heap := heap rs @ [IdsArray (map Some new)],
                        ids_ref := length (heap rs)\<rparr>) \<and>
         denote (rs\<lparr>heap := heap rs @ [IdsArray (map Some new)],
                     ids_ref := length (heap rs)\<rparr>) = (denote rs)\<lparr>ids := new\<rparr>"
proof -
  let ?h' = "heap rs @ [IdsArray (map Some new)]"
  have pre: "prefix (heap rs) ?h'" by simp
  from assms(1) obtain m where m: "entities_at (heap rs) (entities_ref rs) = Some m"
    and sh: "\<And>i a. m i = Some a \<Longrightarrow> shape_at (heap rs) a \<noteq> None"
    by (auto simp: well_typed_iff)
  from entities_at_prefix [OF pre m] have m': "entities_at ?h' (entities_ref rs) = Some m" .
  have sh': "\<And>i a. m i = Some a \<Longrightarrow> shape_at ?h' a = shape_at (heap rs) a"
    using sh shape_at_prefix [OF pre] by fastforce
  have "\<exists>xs. ids_at ?h' (length (heap rs)) = Some (map Some xs)"
    unfolding ids_at_appended by blast
  then have wt: "well_typed (rs\<lparr>heap := ?h', ids_ref := length (heap rs)\<rparr>)"
    unfolding well_typed_iff using m' sh sh' by simp
  have "entities (denote (rs\<lparr>heap := ?h', ids_ref := length (heap rs)\<rparr>)) = entities (denote rs)"
    using m m' sh' by (auto simp: denote_def entity_ref_def fun_eq_iff split: option.splits)
  then have "denote (rs\<lparr>heap := ?h', ids_ref := length (heap rs)\<rparr>) = (denote rs)\<lparr>ids := new\<rparr>"
    by (simp add: denote_def ids_at_appended comp_def)
  with wt show ?thesis by blast
qed

lemma moveShapeLayer_ref_frame:
  "entities_ref (moveShapeLayer_ref i d rs) = entities_ref rs \<and>
   prefix (heap rs) (heap (moveShapeLayer_ref i d rs))"
  by (simp add: moveShapeLayer_ref_def alloc_def Let_def split: option.splits)

lemma reorderShapes_ref_frame:
  "entities_ref (reorderShapes_ref f t rs) = entities_ref rs \<and>
   prefix (heap rs) (heap (reorderShapes_ref f t rs))"
  by (simp add: reorderShapes_ref_def alloc_def Let_def split: option.splits)

lemma denote_ids:
  assumes "well_typed rs"
  shows "ids_at (heap rs) (ids_ref rs) = Some (map Some (ids (denote rs)))"
  using assms by (auto simp: well_typed_iff denote_def comp_def)

lemma moveShapeLayer_ref_sim:
  assumes "well_typed rs" "denote rs = shapeState s"
  shows "well_typed (moveShapeLayer_ref i d rs) \<and>
         denote (moveShapeLayer_ref i d rs) = shapeState (moveShapeLayer i d s)"
proof -
  let ?old = "ids (shapeState s)"
  from denote_ids [OF assms(1)] assms(2)
  have old: "ids_at (heap rs) (ids_ref rs) = Some (map Some ?old)" by simp
  have ix: "indexOf (map Some ?old) (Some i) = indexOf ?old i"
    by (rule indexOf_map) simp
  show ?thesis
  proof (cases "indexOf ?old i = - 1")
    case True
    with old ix assms show ?thesis
      by (simp add: moveShapeLayer_ref_def moveShapeLayer_def)
  next
    case False
    have lo: "layer_order (map Some ?old) (Some i) d = map Some (layer_order ?old i d)"
      by (rule layer_order_map) simp
    from False old ix lo
    have "moveShapeLayer_ref i d rs =
            rs\<lparr>heap := heap rs @ [IdsArray (map Some (layer_order ?old i d))],
               ids_ref := length (heap rs)\<rparr>"
      by (simp add: moveShapeLayer_ref_def alloc_def)
    with frame_ids_update [OF assms(1), of "layer_order ?old i d"] False assms(2)
    show ?thesis by (simp add: moveShapeLayer_def)
  qed
qed

lemma reorderShapes_ref_sim:
  assumes "well_typed rs" "denote rs = shapeState s" "reorderShapes f t s = Some s'"
  shows "well_typed (reorderShapes_ref f t rs) \<and>
         denote (reorderShapes_ref f t rs) = shapeState s'"
proof -
  let ?old = "ids (shapeState s)"
  from denote_ids [OF assms(1)] assms(2)
  have old: "ids_at (heap rs) (ids_ref rs) = Some (map Some ?old)" by simp
  from assms(3) obtain new where new: "reorder_order ?old f t = Some new"
    and s': "s' = s\<lparr>shapeState := (shapeState s)\<lparr>ids := new\<rparr>\<rparr>"
    by (auto simp: reorderShapes_def split: option.splits)
  from old reorder_array_map [OF new]
  have "reorderShapes_ref f t rs =
          rs\<lparr>heap := heap rs @ [IdsArray (map Some new)], ids_ref := length (heap rs)\<rparr>"
    by (simp add: reorderShapes_ref_def alloc_def)
  with frame_ids_update [OF assms(1), of new] assms(2) s' show ?thesis by simp
qed

lemma moveShape_ref_frame:
  "ids_ref (moveShape_ref i p rs) = ids_ref rs \<and>
   prefix (heap rs) (heap (moveShape_ref i p rs)) \<and>
   (\<forall>j. j \<noteq> i \<longrightarrow> entity_ref (moveShape_ref i p rs) j = entity_ref rs j)"
proof (cases "\<exists>m a e. entities_at (heap rs) (entities_ref rs) = Some m \<and> m i = Some a \<and>
                       shape_at (heap rs) a = Some e")
  case True
  then obtain m a e where m: "entities_at (heap rs) (entities_ref rs) = Some m"
    and a: "m i = Some a" and e: "shape_at (heap rs) a = Some e" by blast
  have "entities_at (heap rs @ [ShapeObject (e\<lparr>position := p\<rparr>),
                           EntitiesRecord (m(i \<mapsto> length (heap rs)))]) (Suc (length (heap rs)))
        = Some (m(i \<mapsto> length (heap rs)))"
    by (simp add: entities_at_def fetch_def nth_append)
  with m show ?thesis
    unfolding moveShape_ref_unfold [OF m a e]
    by (simp add: entity_ref_def)
next
  case False
  then have "moveShape_ref i p rs = rs"
    by (auto simp: moveShape_ref_def split: option.splits)
  then show ?thesis by simp
qed

lemma moveShape_ref_sim:
  assumes "well_typed rs" "denote rs = shapeState s"
  shows "well_typed (moveShape_ref i p rs) \<and>
         denote (moveShape_ref i p rs) = shapeState (moveShape i p s)"
proof (cases "entities (shapeState s) i")
  case None
  with assms(2) have "entity_ref rs i = None \<or>
      (\<exists>a. entity_ref rs i = Some a \<and> shape_at (heap rs) a = None)"
    by (auto simp: denote_def fun_eq_iff split: option.splits dest!: arg_cong [where f = entities])
  then have "moveShape_ref i p rs = rs"
    by (auto simp: moveShape_ref_def entity_ref_def split: option.splits)
  with None assms show ?thesis by (simp add: moveShape_def)
next
  case (Some e)
  from assms(1) obtain m where m: "entities_at (heap rs) (entities_ref rs) = Some m"
    and sh: "\<And>j a. m j = Some a \<Longrightarrow> shape_at (heap rs) a \<noteq> None"
    and idsx: "\<exists>xs. ids_at (heap rs) (ids_ref rs) = Some (map Some xs)"
    by (auto simp: well_typed_iff)
  from assms(2) have ent: "entities (denote rs) = entities (shapeState s)" by simp
  have "entities (denote rs) i = (case m i of None \<Rightarrow> None | Some b \<Rightarrow> shape_at (heap rs) b)"
    using m by (simp add: denote_def entity_ref_def)
  with Some ent obtain a where a: "m i = Some a" and e: "shape_at (heap rs) a = Some e"
    by (cases "m i") simp_all
  let ?n = "length (heap rs)"
  let ?h' = "heap rs @ [ShapeObject (e\<lparr>position := p\<rparr>), EntitiesRecord (m(i \<mapsto> ?n))]"
  let ?rs' = "rs\<lparr>heap := ?h', entities_ref := Suc ?n\<rparr>"
  have unf: "moveShape_ref i p rs = ?rs'" by (rule moveShape_ref_unfold [OF m a e])
  have pre: "prefix (heap rs) ?h'" by simp
  have m': "entities_at ?h' (Suc ?n) = Some (m(i \<mapsto> ?n))"
    by (simp add: entities_at_def fetch_def nth_append)
  have new: "shape_at ?h' ?n = Some (e\<lparr>position := p\<rparr>)"
    by (simp add: shape_at_def fetch_def nth_append)
  have keep: "\<And>j b. m j = Some b \<Longrightarrow> shape_at ?h' b = shape_at (heap rs) b"
    using sh shape_at_prefix [OF pre] by fastforce
  from idsx obtain xs where xs: "ids_at (heap rs) (ids_ref rs) = Some (map Some xs)" by blast
  from ids_at_prefix [OF pre xs] have xs': "ids_at ?h' (ids_ref rs) = Some (map Some xs)" .
  have wt: "well_typed ?rs'"
    unfolding well_typed_iff using xs' m' new keep sh by (auto split: if_splits)
  have "entities (denote ?rs') = (entities (shapeState s))(i \<mapsto> e\<lparr>position := p\<rparr>)"
  proof
    fix j
    show "entities (denote ?rs') j = ((entities (shapeState s))(i \<mapsto> e\<lparr>position := p\<rparr>)) j"
    proof (cases "j = i")
      case True
      with m' new show ?thesis by (simp add: denote_def entity_ref_def)
    next
      case False
      have "entities (denote rs) j = (case m j of None \<Rightarrow> None | Some b \<Rightarrow> shape_at (heap rs) b)"
        using m by (simp add: denote_def entity_ref_def)
      with False m' keep ent show ?thesis
        by (auto simp: denote_def entity_ref_def split: option.splits)
    qed
  qed
  moreover have "ids (denote ?rs') = ids (shapeState s)"
    using xs xs' assms(2) by (auto simp: denote_def dest!: arg_cong [where f = ids])
  ultimately have "denote ?rs' = shapeState (moveShape i p s)"
    using Some by (simp add: moveShape_def denote_def)
  with wt unf show ?thesis by simp
qed

subsection \<open>Unfolding the store on concrete states\<close>

lemmas store_defs = addShape_def updateSelectedShape_def removeShape_def moveShape_def
  moveShapeLayer_def layer_order_def reorderShapes_def reorder_order_def splice_def
  setSelectedShapeId_def reset_form_def invalid_dimensions_def hydrate_def normalizeShapes_def
  DEFAULT_STATE_def Let_def math_round_def clamp_def

lemmas view_defs = setZoom_def updateView_def setCanvasOffset_def resetView_def
  denormalizeShapes_def acc_min_def acc_max_def extent_def PADDING_def

lemmas form_defs = resetFormToDefaults_def setCurrentShapeType_def setFormWidth_def
  setFormHeight_def setFormBaseColor_def setFormOpacity_def

lemma example_state_shapes:
  "shapeState example_state =
     \<lparr>ids = [1, 2], entities = [1 \<mapsto> example_shape_at 1 0, 2 \<mapsto> example_shape_at 2 5]\<rparr>"
  by (simp add: example_state_def example_shape_at_def store_defs)

lemma example_refs_well_typed: "well_typed example_refs"
  by (simp add: well_typed_def example_refs_def ids_at_def entities_at_def shape_at_def fetch_def)

lemma example_refs_denote: "denote example_refs = shapeState example_state"
  unfolding example_state_shapes
  by (auto simp: denote_def example_refs_def ids_at_def entities_at_def shape_at_def fetch_def
      entity_ref_def fun_eq_iff)

section \<open>The claims\<close>

text \<open>
  C1 (amended). From the initial state, after every sequence of store actions in which
  each \<^verbatim>\<open>addShape\<close> reads a clock value that is not yet an id of the order, each
  \<^verbatim>\<open>reorderShapes\<close> has both indices in range and each \<^verbatim>\<open>hydrate\<close> is given shapes
  with pairwise different ids, the order holds every id exactly once, the set of its ids
  is the key set of the entity map, and its length is the number of entities.
\<close>

theorem order_invariant_reachable:
  assumes "admissible_run c acts DEFAULT_STATE"
  shows "\<exists>s. run c acts DEFAULT_STATE = Some s \<and> order_invariant (shapeState s)"
proof -
  have "wf_shapes (shapeState DEFAULT_STATE)"
    by (simp add: wf_shapes_def DEFAULT_STATE_def)
  from wf_run [OF this assms] obtain s where
    "run c acts DEFAULT_STATE = Some s" "wf_shapes (shapeState s)" by blast
  then show ?thesis
    by (auto simp: wf_shapes_def intro: order_invariantI)
qed

theorem order_invariant_reachable_witness:
  "admissible_run example_constants example_run DEFAULT_STATE \<and>
   (\<exists>s. run example_constants example_run DEFAULT_STATE = Some s \<and>
        order_invariant (shapeState s))"
proof -
  have h: "admissible_run example_constants example_run DEFAULT_STATE"
    by (simp add: example_run_def store_defs)
  from order_invariant_reachable [OF h] h show ?thesis by blast
qed

text \<open>
  C1 as stated fails: \<^verbatim>\<open>hydrate\<close> stores the ids of the shapes it is given in their
  order, so two shapes with the id 1 leave the order \<open>[1, 1]\<close> over a map with one key.
\<close>

theorem order_invariant_hydrate_counterexample:
  "run example_constants [Hydrate duplicate_id_data] DEFAULT_STATE
     = Some (hydrate example_constants duplicate_id_data DEFAULT_STATE) \<and>
   ids (shapeState (hydrate example_constants duplicate_id_data DEFAULT_STATE)) = [1, 1] \<and>
   dom (entities (shapeState (hydrate example_constants duplicate_id_data DEFAULT_STATE))) = {1} \<and>
   \<not> order_invariant (shapeState (hydrate example_constants duplicate_id_data DEFAULT_STATE))"
  by (simp add: duplicate_id_data_def store_defs order_invariant_def)



text \<open>
  C3 (amended). When a non-zero id is selected, it resolves to an entity, and the
  pending width and height are positive, \<^verbatim>\<open>updateSelectedShape\<close> returns true, replaces
  the width, height, baseColor and opacity of that entity by the pending values, keeps
  its kind, position and id, keeps the order, and resets the selection to none.
\<close>

theorem updateSelectedShape_success:
  assumes "selectedShapeId s = Some sel" and "sel \<noteq> 0"
    and "entities (shapeState s) sel = Some e"
    and "formWidth s = Some w" and "0 < w" and "formHeight s = Some h" and "0 < h"
  shows "fst (updateSelectedShape s) = True \<and>
         entities (shapeState (snd (updateSelectedShape s))) sel =
           Some \<lparr>shape_id = shape_id e, shape_type = shape_type e, width = w, height = h,
                 baseColor = formBaseColor s, opacity = formOpacity s,
                 position = position e\<rparr> \<and>
         ids (shapeState (snd (updateSelectedShape s))) = ids (shapeState s) \<and>
         selectedShapeId (snd (updateSelectedShape s)) = None"
  using assms
  by (simp add: updateSelectedShape_def invalid_dimensions_def reset_form_def)

theorem updateSelectedShape_success_witness:
  "selectedShapeId editing_state = Some 1000 \<and>
   entities (shapeState editing_state) 1000 =
     Some \<lparr>shape_id = 1000, shape_type = ellipse, width = 10, height = 10,
           baseColor = ''#007BFF'', opacity = 1, position = \<lparr>pos_x = 2, pos_y = 3\<rparr>\<rparr> \<and>
   formWidth editing_state = Some 4 \<and> formHeight editing_state = Some 10 \<and>
   fst (updateSelectedShape editing_state) = True \<and>
   entities (shapeState (snd (updateSelectedShape editing_state))) 1000 =
     Some \<lparr>shape_id = 1000, shape_type = ellipse, width = 4, height = 10,
           baseColor = ''#007BFF'', opacity = 1, position = \<lparr>pos_x = 2, pos_y = 3\<rparr>\<rparr> \<and>
   ids (shapeState (snd (updateSelectedShape editing_state))) = [1000] \<and>
   selectedShapeId (snd (updateSelectedShape editing_state)) = None"
proof -
  let ?e = "\<lparr>shape_id = 1000, shape_type = ellipse, width = 10, height = 10,
           baseColor = ''#007BFF'', opacity = 1, position = \<lparr>pos_x = 2, pos_y = 3\<rparr>\<rparr>"
  have 1: "selectedShapeId editing_state = Some 1000"
    by (simp add: editing_state_def store_defs form_defs)
  have 2: "(1000::real) \<noteq> 0" by simp
  have 3: "entities (shapeState editing_state) 1000 = Some ?e"
    by (simp add: editing_state_def store_defs form_defs)
  have 4: "formWidth editing_state = Some 4"
    by (simp add: editing_state_def store_defs form_defs)
  have 5: "(0::real) < 4" by simp
  have 6: "formHeight editing_state = Some 10"
    by (simp add: editing_state_def store_defs form_defs)
  have 7: "(0::real) < 10" by simp
  have 8: "formBaseColor editing_state = ''#007BFF''" "formOpacity editing_state = 1"
    "ids (shapeState editing_state) = [1000]"
    by (simp_all add: editing_state_def store_defs form_defs)
  from updateSelectedShape_success [OF 1 2 3 4 5 6 7] 1 3 4 6 8 show ?thesis by simp
qed

text \<open>
  C3 as stated fails: the pending kind is not written. A box is pending while the
  selected entity is an ellipse, and the entity is an ellipse after the update.
\<close>

theorem updateSelectedShape_kind_counterexample:
  "selectedShapeId editing_state = Some 1000 \<and>
   currentShapeType editing_state = box \<and>
   map_option shape_type (entities (shapeState editing_state) 1000) = Some ellipse \<and>
   fst (updateSelectedShape editing_state) = True \<and>
   map_option shape_type
     (entities (shapeState (snd (updateSelectedShape editing_state))) 1000) = Some ellipse \<and>
   map_option shape_type
     (entities (shapeState (snd (updateSelectedShape editing_state))) 1000) \<noteq> Some box"
  by (simp add: editing_state_def store_defs form_defs)

text \<open>
  C4 (amended). \<^verbatim>\<open>updateSelectedShape\<close> changes nothing when there is no selection or
  the selected id has no entity. Without a selection it returns false; with a selected id
  that has no entity it returns true exactly when the id is not 0 and the pending width
  and height are positive.
\<close>

theorem updateSelectedShape_noop:
  "(selectedShapeId s = None \<longrightarrow> updateSelectedShape s = (False, s)) \<and>
   (selectedShapeId s = Some sel \<and> entities (shapeState s) sel = None \<longrightarrow>
      snd (updateSelectedShape s) = s \<and>
      fst (updateSelectedShape s) =
        (sel \<noteq> 0 \<and> \<not> invalid_dimensions (formWidth s) (formHeight s)))"
  by (simp add: updateSelectedShape_def)

theorem updateSelectedShape_noop_witness:
  "selectedShapeId DEFAULT_STATE = None \<and>
   updateSelectedShape DEFAULT_STATE = (False, DEFAULT_STATE) \<and>
   selectedShapeId dangling_selection_state = Some 5 \<and>
   entities (shapeState dangling_selection_state) 5 = None \<and>
   snd (updateSelectedShape dangling_selection_state) = dangling_selection_state \<and>
   fst (updateSelectedShape dangling_selection_state) = True"
proof -
  have 1: "selectedShapeId DEFAULT_STATE = None" by (simp add: DEFAULT_STATE_def)
  have 2: "selectedShapeId dangling_selection_state = Some 5 \<and>
           entities (shapeState dangling_selection_state) 5 = None"
    by (simp add: dangling_selection_state_def DEFAULT_STATE_def)
  have 3: "\<not> invalid_dimensions (formWidth dangling_selection_state)
             (formHeight dangling_selection_state)"
    by (simp add: dangling_selection_state_def DEFAULT_STATE_def invalid_dimensions_def)
  from updateSelectedShape_noop [of DEFAULT_STATE 5]
    updateSelectedShape_noop [of dangling_selection_state 5] 1 2 3
  show ?thesis by simp
qed

text \<open>
  C4 as stated fails: with the id 5 selected, no entity for it and the default pending
  dimensions, the call returns true.
\<close>

theorem updateSelectedShape_unresolved_counterexample:
  "selectedShapeId dangling_selection_state = Some 5 \<and>
   entities (shapeState dangling_selection_state) 5 = None \<and>
   fst (updateSelectedShape dangling_selection_state) = True \<and>
   fst (updateSelectedShape dangling_selection_state) \<noteq> False"
  by (simp add: dangling_selection_state_def store_defs)

text \<open>
  C5 (amended). For a collection whose ids all resolve, that is not empty, and whose
  bounding box has width or height at most 0, \<^verbatim>\<open>resetView\<close> stores the default view:
  zoom 10 and offset \<open>(0, 0)\<close>.
\<close>

theorem resetView_degenerate:
  assumes "denormalizeShapes (shapeState s) = map Some shapes" and "shapes \<noteq> []"
    and "bbox_width shapes \<le> 0 \<or> bbox_height shapes \<le> 0"
  shows "resetView c vw vh s = Inr (s\<lparr>zoom := 10, canvasOffset := \<lparr>pos_x = 0, pos_y = 0\<rparr>\<rparr>)"
proof -
  from bounds_loop_bbox [OF assms(2)] obtain b where
    b: "bounds_loop \<lparr>minX = None, minY = None, maxX = None, maxY = None\<rparr> (map Some shapes) = Inr b"
    and w: "extent (maxX b) (minX b) = Some (bbox_width shapes)"
    and h: "extent (maxY b) (minY b) = Some (bbox_height shapes)" by blast
  from assms(2) have len: "length (map Some shapes) > 0" by simp
  show ?thesis
    unfolding resetView_def Let_def assms(1)
    using b w h assms(3) len by auto
qed

theorem resetView_degenerate_witness:
  "denormalizeShapes (shapeState degenerate_state) =
     map Some [\<lparr>shape_id = 1, shape_type = box, width = 0, height = 5,
                 baseColor = ''#000000'', opacity = 1,
                 position = \<lparr>pos_x = 3, pos_y = 4\<rparr>\<rparr>] \<and>
   bbox_width [\<lparr>shape_id = 1, shape_type = box, width = 0, height = 5,
                 baseColor = ''#000000'', opacity = 1,
                 position = \<lparr>pos_x = 3, pos_y = 4\<rparr>\<rparr>] \<le> 0 \<and>
   resetView example_constants 300 300 degenerate_state =
     Inr (degenerate_state\<lparr>zoom := 10, canvasOffset := \<lparr>pos_x = 0, pos_y = 0\<rparr>\<rparr>)"
proof -
  let ?sh = "\<lparr>shape_id = 1, shape_type = box, width = 0, height = 5,
                 baseColor = ''#000000'', opacity = 1,
                 position = \<lparr>pos_x = 3, pos_y = 4\<rparr>\<rparr>"
  have 1: "denormalizeShapes (shapeState degenerate_state) = map Some [?sh]"
    by (simp add: degenerate_state_def example_constants_def denormalizeShapes_def updateView_def hydrate_def
        normalizeShapes_def DEFAULT_STATE_def)
  have 2: "[?sh] \<noteq> []" by simp
  have 3: "bbox_width [?sh] \<le> 0" by (simp add: bbox_width_def)
  from resetView_degenerate [OF 1 2 disjI1 [OF 3]] 1 3 show ?thesis by simp
qed

text \<open>
  C5 as stated fails: the view is zoom 25 at offset \<open>(7, 8)\<close> over one shape of
  width 0, and \<^verbatim>\<open>resetView\<close> leaves zoom 10 at offset \<open>(0, 0)\<close>.
\<close>

theorem resetView_degenerate_counterexample:
  "denormalizeShapes (shapeState degenerate_state) =
     [Some \<lparr>shape_id = 1, shape_type = box, width = 0, height = 5,
            baseColor = ''#000000'', opacity = 1,
            position = \<lparr>pos_x = 3, pos_y = 4\<rparr>\<rparr>] \<and>
   zoom degenerate_state = 25 \<and>
   canvasOffset degenerate_state = \<lparr>pos_x = 7, pos_y = 8\<rparr> \<and>
   map_sum id zoom (resetView example_constants 300 300 degenerate_state)
     = Inr 10 \<and>
   map_sum id canvasOffset (resetView example_constants 300 300 degenerate_state)
     = Inr \<lparr>pos_x = 0, pos_y = 0\<rparr>"
  by (simp add: degenerate_state_def example_constants_def view_defs store_defs)

text \<open>
  C6, the code at the failing input: two calls of \<^verbatim>\<open>addShape\<close> that read the same
  clock value both succeed and give both shapes that value as id, so the order holds it
  twice.
\<close>

theorem addShape_same_clock_value:
  "fst (addShape 1700000000000 \<lparr>pos_x = 0, pos_y = 0\<rparr> DEFAULT_STATE) = True \<and>
   fst (addShape 1700000000000 \<lparr>pos_x = 5, pos_y = 5\<rparr>
          (snd (addShape 1700000000000 \<lparr>pos_x = 0, pos_y = 0\<rparr> DEFAULT_STATE))) = True \<and>
   ids (shapeState (snd (addShape 1700000000000 \<lparr>pos_x = 5, pos_y = 5\<rparr>
          (snd (addShape 1700000000000 \<lparr>pos_x = 0, pos_y = 0\<rparr> DEFAULT_STATE)))))
     = [1700000000000, 1700000000000]"
  by (simp add: store_defs)

text \<open>
  C7 (amended). \<^verbatim>\<open>setSelectedShapeId\<close> with no id, or with an id that has no entity,
  sets the selection to none and leaves the draft as it is. With a non-zero id that has
  an entity it selects that id and copies the entity's width, height, baseColor, opacity
  and kind into the draft.
\<close>

theorem setSelectedShapeId_effect:
  "((i = None \<or> (\<exists>n. i = Some n \<and> entities (shapeState s) n = None)) \<longrightarrow>
      setSelectedShapeId i s = s\<lparr>selectedShapeId := None\<rparr>) \<and>
   (i = Some n \<and> n \<noteq> 0 \<and> entities (shapeState s) n = Some e \<longrightarrow>
      setSelectedShapeId i s =
        s\<lparr>selectedShapeId := Some n,
          formWidth := Some (width e),
          formHeight := Some (height e),
          formBaseColor := baseColor e,
          formOpacity := opacity e,
          currentShapeType := shape_type e\<rparr>)"
  by (auto simp: setSelectedShapeId_def)

theorem setSelectedShapeId_effect_witness:
  "setSelectedShapeId None pending_state = pending_state\<lparr>selectedShapeId := None\<rparr> \<and>
   entities (shapeState one_shape_state) 1000
     = Some \<lparr>shape_id = 1000, shape_type = ellipse, width = 5, height = 10,
             baseColor = ''#007BFF'', opacity = 1, position = \<lparr>pos_x = 2, pos_y = 3\<rparr>\<rparr> \<and>
   setSelectedShapeId (Some 1000) one_shape_state
     = one_shape_state\<lparr>selectedShapeId := Some 1000, formWidth := Some 5,
         formHeight := Some 10, formBaseColor := ''#007BFF'', formOpacity := 1,
         currentShapeType := ellipse\<rparr>"
proof -
  let ?e = "\<lparr>shape_id = 1000, shape_type = ellipse, width = 5, height = 10,
             baseColor = ''#007BFF'', opacity = 1, position = \<lparr>pos_x = 2, pos_y = 3\<rparr>\<rparr>"
  have 1: "entities (shapeState one_shape_state) 1000 = Some ?e"
    by (simp add: one_shape_state_def pending_state_def store_defs form_defs)
  have 2: "(1000::real) \<noteq> 0" by simp
  from setSelectedShapeId_effect [of None pending_state]
    setSelectedShapeId_effect [of "Some 1000" one_shape_state 1000 ?e] 1 2
  show ?thesis by simp
qed

text \<open>
  C7 as stated fails: with a pending width of 5, selecting nothing leaves the pending
  width 5, not the default 10.
\<close>

theorem setSelectedShapeId_draft_counterexample:
  "formWidth pending_state = Some 5 \<and>
   selectedShapeId (setSelectedShapeId None pending_state) = None \<and>
   formWidth (setSelectedShapeId None pending_state) = Some 5 \<and>
   formWidth (setSelectedShapeId None pending_state) \<noteq> Some 10"
  by (simp add: pending_state_def store_defs form_defs)

text \<open>
  C8. \<^verbatim>\<open>loadWorkspace\<close> returns no prior state when the version of the parsed record
  is not the current one. When the stored text parses to an object of the current
  version whose \<^verbatim>\<open>shapes\<close> is an array, the loaded shapes are exactly the elements
  that \<^verbatim>\<open>isValidShape\<close> accepts, in their order; \<^verbatim>\<open>isValidShape\<close> accepts exactly the
  elements that satisfy the schema; and the payload with two valid shapes around one of
  negative width loads as the two valid shapes.
\<close>

theorem loadWorkspace_shapes:
  "(json_parse stored = Some parsed \<and> property (Some parsed) ''version'' \<noteq> Some (JNum VERSION) \<longrightarrow>
      loadWorkspace c window_defined (Some stored) json_parse = None) \<and>
   (stored \<noteq> [] \<and> json_parse stored = Some (JObj kvs) \<and>
    map_of kvs ''version'' = Some (JNum VERSION) \<and> map_of kvs ''shapes'' = Some (JArr elems) \<longrightarrow>
      map_option w_shapes (loadWorkspace c True (Some stored) json_parse)
        = Some (map shapeData_of (filter isValidShape elems))) \<and>
   (\<forall>shape. isValidShape shape = schema_valid shape) \<and>
   map_option w_shapes
     (loadWorkspace c True (Some ''saved'')
        (\<lambda>t. if t = ''saved'' then Some example_payload else None))
     = Some [\<lparr>shape_id = 1, shape_type = box, width = 3, height = 4,
              baseColor = ''#112233'', opacity = 1 / 2, position = \<lparr>pos_x = 1, pos_y = 2\<rparr>\<rparr>,
             \<lparr>shape_id = 3, shape_type = crescent, width = 5, height = 4,
              baseColor = ''#112233'', opacity = 1 / 2, position = \<lparr>pos_x = 1, pos_y = 2\<rparr>\<rparr>]"
proof -
  have 1: "json_parse stored = Some parsed \<and> property (Some parsed) ''version'' \<noteq> Some (JNum VERSION) \<longrightarrow>
      loadWorkspace c window_defined (Some stored) json_parse = None"
    by (simp add: loadWorkspace_def)
  have 2: "stored \<noteq> [] \<and> json_parse stored = Some (JObj kvs) \<and>
    map_of kvs ''version'' = Some (JNum VERSION) \<and> map_of kvs ''shapes'' = Some (JArr elems) \<longrightarrow>
      map_option w_shapes (loadWorkspace c True (Some stored) json_parse)
        = Some (map shapeData_of (filter isValidShape elems))"
    by (simp add: loadWorkspace_def Let_def)
  have 3: "map_option w_shapes
     (loadWorkspace c True (Some ''saved'')
        (\<lambda>t. if t = ''saved'' then Some example_payload else None))
     = Some [\<lparr>shape_id = 1, shape_type = box, width = 3, height = 4,
              baseColor = ''#112233'', opacity = 1 / 2, position = \<lparr>pos_x = 1, pos_y = 2\<rparr>\<rparr>,
             \<lparr>shape_id = 3, shape_type = crescent, width = 5, height = 4,
              baseColor = ''#112233'', opacity = 1 / 2, position = \<lparr>pos_x = 1, pos_y = 2\<rparr>\<rparr>]"
    by (simp add: loadWorkspace_def example_payload_def VERSION_def isValidShape_def
        example_shape_def shapeData_of_def shapeType_of_def)
  from 1 2 3 isValidShape_schema show ?thesis by blast
qed

theorem loadWorkspace_shapes_witness:
  "loadWorkspace example_constants True (Some ''old'')
     (\<lambda>t. if t = ''old'' then Some (JObj [(''version'', JNum 2), (''shapes'', JArr [])]) else None)
     = None \<and>
   map_option w_shapes (loadWorkspace example_constants True (Some ''saved'')
     (\<lambda>t. if t = ''saved'' then Some example_payload else None))
     = Some (map shapeData_of [example_shape 1 ''box'' 3, example_shape 3 ''crescent'' 5])"
proof -
    let ?old = "JObj [(''version'', JNum 2), (''shapes'', JArr [])]"
  let ?p1 = "\<lambda>t. if t = ''old'' then Some ?old else None"
  let ?p2 = "\<lambda>t. if t = ''saved'' then Some example_payload else None"
  let ?kvs = "[(''version'', JNum 1),
           (''shapes'', JArr [example_shape 1 ''box'' 3, example_shape 2 ''ellipse'' (- 3),
                             example_shape 3 ''crescent'' 5]),
           (''zoom'', JNum 12)]"
  let ?elems = "[example_shape 1 ''box'' 3, example_shape 2 ''ellipse'' (- 3),
                             example_shape 3 ''crescent'' 5]"
  have a: "?p1 ''old'' = Some ?old \<and> property (Some ?old) ''version'' \<noteq> Some (JNum VERSION)"
    by (simp add: VERSION_def)
  have b: "''saved'' \<noteq> [] \<and> ?p2 ''saved'' = Some (JObj ?kvs) \<and>
      map_of ?kvs ''version'' = Some (JNum VERSION) \<and> map_of ?kvs ''shapes'' = Some (JArr ?elems)"
    by (simp add: VERSION_def example_payload_def)
  have f: "filter isValidShape ?elems = [example_shape 1 ''box'' 3, example_shape 3 ''crescent'' 5]"
    by (simp add: isValidShape_def example_shape_def)
  from loadWorkspace_shapes [where json_parse = ?p1 and stored = "''old''" and parsed = ?old
      and c = example_constants and window_defined = True] a
  have 1: "loadWorkspace example_constants True (Some ''old'') ?p1 = None" by blast
  from loadWorkspace_shapes [where json_parse = ?p2 and stored = "''saved''" and c = example_constants
      and kvs = ?kvs and elems = ?elems] b
  have 2: "map_option w_shapes (loadWorkspace example_constants True (Some ''saved'') ?p2)
             = Some (map shapeData_of (filter isValidShape ?elems))" by blast
  from 1 2 show ?thesis unfolding f by simp
qed

text \<open>
  C9. For an id that has an entity, \<^verbatim>\<open>moveShape\<close> changes the position of that entity
  and nothing else in the state. On the object graph the reference to the \<^verbatim>\<open>ids\<close>
  array is the one from before the call, every object that existed before the call is
  still at its address with its content, every other id still refers to the shape object
  it referred to, and the graph after the call stands for the collection the call
  returns.
\<close>

theorem moveShape_frame:
  assumes "well_typed rs" and "denote rs = shapeState s"
    and "entities (shapeState s) i = Some e"
  shows "moveShape i p s =
           s\<lparr>shapeState := (shapeState s)\<lparr>entities :=
               (entities (shapeState s))(i \<mapsto> e\<lparr>position := p\<rparr>)\<rparr>\<rparr> \<and>
         ids_ref (moveShape_ref i p rs) = ids_ref rs \<and>
         prefix (heap rs) (heap (moveShape_ref i p rs)) \<and>
         (\<forall>j. j \<noteq> i \<longrightarrow> entity_ref (moveShape_ref i p rs) j = entity_ref rs j) \<and>
         well_typed (moveShape_ref i p rs) \<and>
         denote (moveShape_ref i p rs) = shapeState (moveShape i p s)"
  using assms(3) moveShape_ref_frame [of i p rs] moveShape_ref_sim [OF assms(1,2), of i p]
  by (simp add: moveShape_def)

theorem moveShape_frame_witness:
  "well_typed example_refs \<and> denote example_refs = shapeState example_state \<and>
   entities (shapeState example_state) 1 = Some (example_shape_at 1 0) \<and>
   ids_ref (moveShape_ref 1 \<lparr>pos_x = 7, pos_y = 8\<rparr> example_refs) = ids_ref example_refs \<and>
   prefix (heap example_refs) (heap (moveShape_ref 1 \<lparr>pos_x = 7, pos_y = 8\<rparr> example_refs)) \<and>
   entity_ref (moveShape_ref 1 \<lparr>pos_x = 7, pos_y = 8\<rparr> example_refs) 2 = entity_ref example_refs 2 \<and>
   denote (moveShape_ref 1 \<lparr>pos_x = 7, pos_y = 8\<rparr> example_refs)
     = shapeState (moveShape 1 \<lparr>pos_x = 7, pos_y = 8\<rparr> example_state)"
proof -
  have e: "entities (shapeState example_state) 1 = Some (example_shape_at 1 0)"
    by (simp add: example_state_shapes)
  from moveShape_frame [OF example_refs_well_typed example_refs_denote e, of "\<lparr>pos_x = 7, pos_y = 8\<rparr>"]
    example_refs_well_typed example_refs_denote e
  show ?thesis by simp
qed

text \<open>
  C10. \<^verbatim>\<open>moveShapeLayer\<close>, for every direction string, and \<^verbatim>\<open>reorderShapes\<close> leave the
  entity map as it is and change at most the order. On the object graph the reference to
  the \<^verbatim>\<open>entities\<close> record is the one from before the call and every object that
  existed before the call is still at its address with its content, for every argument;
  from a typed graph the graph after the call stands for the collection the call
  returns.
\<close>

theorem layer_and_reorder_frame:
  "entities (shapeState (moveShapeLayer i d s)) = entities (shapeState s) \<and>
   moveShapeLayer i d s =
     s\<lparr>shapeState := (shapeState s)\<lparr>ids := ids (shapeState (moveShapeLayer i d s))\<rparr>\<rparr> \<and>
   (reorderShapes f t s = Some s' \<longrightarrow>
      entities (shapeState s') = entities (shapeState s) \<and>
      s' = s\<lparr>shapeState := (shapeState s)\<lparr>ids := ids (shapeState s')\<rparr>\<rparr>) \<and>
   entities_ref (moveShapeLayer_ref i d rs) = entities_ref rs \<and>
   prefix (heap rs) (heap (moveShapeLayer_ref i d rs)) \<and>
   entities_ref (reorderShapes_ref f t rs) = entities_ref rs \<and>
   prefix (heap rs) (heap (reorderShapes_ref f t rs)) \<and>
   (well_typed rs \<and> denote rs = shapeState s \<longrightarrow>
      well_typed (moveShapeLayer_ref i d rs) \<and>
      denote (moveShapeLayer_ref i d rs) = shapeState (moveShapeLayer i d s) \<and>
      (reorderShapes f t s = Some s' \<longrightarrow>
         well_typed (reorderShapes_ref f t rs) \<and>
         denote (reorderShapes_ref f t rs) = shapeState s'))"
proof -
  have 1: "entities (shapeState (moveShapeLayer i d s)) = entities (shapeState s)"
    and 2: "moveShapeLayer i d s =
     s\<lparr>shapeState := (shapeState s)\<lparr>ids := ids (shapeState (moveShapeLayer i d s))\<rparr>\<rparr>"
    by (simp_all add: moveShapeLayer_def)
  have 3: "reorderShapes f t s = Some s' \<longrightarrow>
      entities (shapeState s') = entities (shapeState s) \<and>
      s' = s\<lparr>shapeState := (shapeState s)\<lparr>ids := ids (shapeState s')\<rparr>\<rparr>"
    by (auto simp: reorderShapes_def split: option.splits)
  from 1 2 3 moveShapeLayer_ref_frame [of i d rs] reorderShapes_ref_frame [of f t rs]
    moveShapeLayer_ref_sim [of rs s i d] reorderShapes_ref_sim [of rs s f t s']
  show ?thesis by blast
qed

theorem layer_and_reorder_frame_witness:
  "reorderShapes 0 1 example_state
     = Some (example_state\<lparr>shapeState := (shapeState example_state)\<lparr>ids := [2, 1]\<rparr>\<rparr>) \<and>
   ids (shapeState (moveShapeLayer 1 ''sideways'' example_state)) = [1, 2] \<and>
   ids (shapeState (moveShapeLayer 1 ''toFront'' example_state)) = [2, 1] \<and>
   entities (shapeState (moveShapeLayer 1 ''toFront'' example_state))
     = entities (shapeState example_state) \<and>
   entities_ref (moveShapeLayer_ref 1 ''toFront'' example_refs) = entities_ref example_refs \<and>
   prefix (heap example_refs) (heap (moveShapeLayer_ref 1 ''toFront'' example_refs)) \<and>
   entities_ref (reorderShapes_ref 0 1 example_refs) = entities_ref example_refs \<and>
   prefix (heap example_refs) (heap (reorderShapes_ref 0 1 example_refs)) \<and>
   denote (moveShapeLayer_ref 1 ''toFront'' example_refs)
     = shapeState (moveShapeLayer 1 ''toFront'' example_state) \<and>
   denote (reorderShapes_ref 0 1 example_refs)
     = shapeState (example_state\<lparr>shapeState := (shapeState example_state)\<lparr>ids := [2, 1]\<rparr>\<rparr>)"
proof -
  let ?s' = "example_state\<lparr>shapeState := (shapeState example_state)\<lparr>ids := [2, 1]\<rparr>\<rparr>"
  have r: "reorderShapes 0 1 example_state = Some ?s'"
    by (simp add: reorderShapes_def reorder_order_def splice_def example_state_shapes)
  have l: "ids (shapeState (moveShapeLayer 1 ''sideways'' example_state)) = [1, 2]"
    "ids (shapeState (moveShapeLayer 1 ''toFront'' example_state)) = [2, 1]"
    by (simp_all add: moveShapeLayer_def layer_order_def splice_def example_state_shapes)
  from layer_and_reorder_frame [of 1 "''toFront''" example_state 0 1 ?s' example_refs]
    r l example_refs_well_typed example_refs_denote
  show ?thesis by simp
qed

end
